theory Spec2Isabelle
  imports Complex_Main "HOL-Library.Word"
begin

section \<open>Token estimation (tokens.go)\<close>

text \<open>
  \<^verbatim>\<open>for _, r := range text\<close> walks the string rune by rune: Go hands the loop body one
  code point per UTF-8 encoded character (and U+FFFD for every byte that is not part of a
  valid encoding).  The model takes the text as that sequence of runes.  A rune is Go's
  \<^verbatim>\<open>int32\<close>; the values a range loop yields lie in 0..0x10FFFF.  Go's \<^verbatim>\<open>int\<close> is read as a
  mathematical integer: \<^verbatim>\<open>weight\<close> grows by at most 4 per rune, so it stays far below
  2^63 for every string that fits in memory.
\<close>

type_synonym rune = int

text \<open>Go's integer division truncates towards zero.\<close>

definition go_quot :: "int \<Rightarrow> int \<Rightarrow> int" where
  "go_quot a b = sgn a * sgn b * (\<bar>a\<bar> div \<bar>b\<bar>)"

text \<open>The body of the range loop, with the accumulator \<^verbatim>\<open>weight\<close> threaded through.\<close>

fun weight_loop :: "rune list \<Rightarrow> int \<Rightarrow> int" where
  "weight_loop [] weight = weight"
| "weight_loop (r # rs) weight =
     weight_loop rs (if r \<le> 127 then weight + 1 else weight + 4)"

definition EstimateTokens :: "rune list \<Rightarrow> int" where
  "EstimateTokens text = go_quot (weight_loop text 0 + 3) 4"

text \<open>
  The policy in the words of the specification: every character weighs 1 when its code
  point is at most 127 and 4 otherwise; the weights are summed.
\<close>

definition char_weight :: "rune \<Rightarrow> int" where
  "char_weight r = (if r \<le> 127 then 1 else 4)"

definition spec_weight_sum :: "rune list \<Rightarrow> int" where
  "spec_weight_sum text = sum_list (map char_weight text)"

section \<open>Conversation history (Message, TruncateHistory, AddMessageToHistory)\<close>

text \<open>
  \<^verbatim>\<open>time.Time\<close> values are abstract instants; \<^verbatim>\<open>time.Now()\<close> is an input of every
  operation that reads the clock.  Text fields are kept as rune sequences, the form in
  which \<^const>\<open>EstimateTokens\<close> consumes them.
\<close>

type_synonym time = int

record Message =
  Role :: string
  Content :: "rune list"
  TokenCount :: int
  Timestamp :: time

text \<open>
  A Go run-time panic ends the call without a result.  The two that the modelled code can
  raise: a slice expression whose bounds are out of range, and an assignment to an entry
  of a nil map.
\<close>

datatype panic = SliceBoundsOutOfRange | AssignToNilMap

text \<open>
  \<^verbatim>\<open>history[low:]\<close>: the bounds check demands \<^verbatim>\<open>0 <= low <= len(history)\<close>.  Go computes
  \<^verbatim>\<open>low\<close> in 64 bits; where \<^verbatim>\<open>len(history) - messageLimit\<close> would wrap around, the wrapped
  value is negative and the mathematical one exceeds the length, so both fail the check.
\<close>

definition slice_from :: "'a list \<Rightarrow> int \<Rightarrow> panic + 'a list" where
  "slice_from xs low =
     (if low < 0 \<or> int (length xs) < low then Inl SliceBoundsOutOfRange
      else Inr (drop (nat low) xs))"

text \<open>
  The running total \<^verbatim>\<open>totalTokens\<close> is a Go \<^verbatim>\<open>int\<close>, 64 bits wide on the platforms the
  service runs on: \<^verbatim>\<open>+=\<close> and \<^verbatim>\<open>-=\<close> wrap around silently.  \<open>wrap64\<close> brings a
  mathematical result back into the range from \<open>-2^63\<close> to \<open>2^63 - 1\<close>.
\<close>

definition wrap64 :: "int \<Rightarrow> int" where
  "wrap64 x = signed_take_bit 63 x"

text \<open>\<^verbatim>\<open>for _, msg := range history { totalTokens += msg.TokenCount }\<close>\<close>

fun sum_tokens :: "Message list \<Rightarrow> int \<Rightarrow> int" where
  "sum_tokens [] totalTokens = totalTokens"
| "sum_tokens (msg # rest) totalTokens =
     sum_tokens rest (wrap64 (totalTokens + TokenCount msg))"

text \<open>
  \<^verbatim>\<open>for totalTokens > tokenLimit && len(history) > 0\<close>: drop \<^verbatim>\<open>history[0]\<close> and subtract
  its count.
\<close>

fun drop_oldest :: "int \<Rightarrow> int \<Rightarrow> Message list \<Rightarrow> Message list" where
  "drop_oldest totalTokens tokenLimit [] = []"
| "drop_oldest totalTokens tokenLimit (m # ms) =
     (if totalTokens > tokenLimit
      then drop_oldest (wrap64 (totalTokens - TokenCount m)) tokenLimit ms
      else m # ms)"

definition TruncateHistory :: "Message list \<Rightarrow> int \<Rightarrow> int \<Rightarrow> panic + Message list" where
  "TruncateHistory history tokenLimit messageLimit =
     (if length history = 0 then Inr history
      else
        case (if int (length history) > messageLimit
              then slice_from history (int (length history) - messageLimit)
              else Inr history) of
          Inl p \<Rightarrow> Inl p
        | Inr history' \<Rightarrow>
            Inr (drop_oldest (sum_tokens history' 0) tokenLimit history'))"

definition AddMessageToHistory ::
  "time \<Rightarrow> Message list \<Rightarrow> string \<Rightarrow> rune list \<Rightarrow> Message list" where
  "AddMessageToHistory now history role content =
     history @ [\<lparr>Role = role, Content = content,
                 TokenCount = EstimateTokens content, Timestamp = now\<rparr>]"

text \<open>
  The sum of the token counts as the code computes it, and the trailing run of messages
  whose token count is 0.
\<close>

definition go_total :: "Message list \<Rightarrow> int" where
  "go_total h = wrap64 (sum_list (map TokenCount h))"

definition zero_suffix :: "Message list \<Rightarrow> Message list" where
  "zero_suffix h = rev (takeWhile (\<lambda>m. TokenCount m = 0) (rev h))"

section \<open>Session data and errors (session package)\<close>

text \<open>The values held by \<^verbatim>\<open>map[string]any\<close> are opaque: no store operation looks inside.\<close>

typedecl any

text \<open>\<^verbatim>\<open>Version\<close> is an \<^verbatim>\<open>int64\<close>: a 64-bit word, \<^verbatim>\<open>Version++\<close> wraps around.\<close>

record SessionData =
  ID :: string
  CreatedAt :: time
  UpdatedAt :: time
  Version :: "64 word"
  ConversationHistory :: "Message list"
  SystemPrompt :: string
  Keyterms :: "string list"
  Language :: string
  TTSEnabled :: bool
  AllowedOrigins :: "string list"
  RateLimits :: "string \<rightharpoonup> any"
  Config :: "string \<rightharpoonup> any"

text \<open>
  The errors a store operation can return.  The four sentinel values of the package come
  first.  What the Redis client reports is a value of its own kind (\<open>client_error\<close>), and a
  failure of \<^verbatim>\<open>encoding/json\<close> another; neither can be one of the sentinels.
\<close>

datatype client_error = ContextCanceled | ContextDeadlineExceeded | NetError string

datatype error =
    ErrInvalidConfig
  | ErrInvalidStoreType
  | ErrVersionConflict
  | ErrNotFound
  | TxFailedErr
  | ClientError client_error
  | JSONError string

text \<open>
  A \<^verbatim>\<open>context.Context\<close> as an operation finds it on entry: still live, cancelled, or
  past its deadline.  \<open>ctx_Err\<close> is \<^verbatim>\<open>ctx.Err()\<close>.
\<close>

datatype "context" = Live | Cancelled | PastDeadline

fun ctx_Err :: "context \<Rightarrow> client_error option" where
  "ctx_Err Live = None"
| "ctx_Err Cancelled = Some ContextCanceled"
| "ctx_Err PastDeadline = Some ContextDeadlineExceeded"

section \<open>The in-memory store (inMemoryStore in session/factory.go, InMemoryStore in drivers)\<close>

text \<open>
  The map holds \<^verbatim>\<open>*SessionData\<close>: the pointer the caller passed, not a copy.  The model
  therefore keeps the objects in a heap and the pointers in the map.  \<open>sessions = None\<close>
  is the nil map that \<^verbatim>\<open>Close\<close> leaves behind.  The two Go types \<^verbatim>\<open>inMemoryStore\<close> and
  \<^verbatim>\<open>drivers.InMemoryStore\<close> have the same method bodies, statement for statement; one
  model serves both.  The mutex makes every method body one atomic step; each function
  below is such a step.  A pointer is the address of a struct; the nil pointer, on which
  \<^verbatim>\<open>Create\<close> and \<^verbatim>\<open>Update\<close> would panic at their first field access, is not an address.
\<close>

type_synonym addr = nat

record mem_world =
  heap :: "addr \<Rightarrow> SessionData"
  sessions :: "(string \<rightharpoonup> addr) option"

definition NewInMemoryStore :: "(addr \<Rightarrow> SessionData) \<Rightarrow> mem_world" where
  "NewInMemoryStore h = \<lparr>heap = h, sessions = Some Map.empty\<rparr>"

definition inMemoryStore_Create ::
  "time \<Rightarrow> context \<Rightarrow> addr \<Rightarrow> mem_world \<Rightarrow> panic + (error option \<times> mem_world)" where
  "inMemoryStore_Create now ctx data w =
     (let h = (heap w)(data := (heap w data)\<lparr>CreatedAt := now, UpdatedAt := now, Version := 1\<rparr>)
      in case sessions w of
           None \<Rightarrow> Inl AssignToNilMap
         | Some m \<Rightarrow> Inr (None, \<lparr>heap = h, sessions = Some (m(ID (h data) \<mapsto> data))\<rparr>))"

definition inMemoryStore_Get ::
  "context \<Rightarrow> string \<Rightarrow> mem_world \<Rightarrow> addr option \<times> error option" where
  "inMemoryStore_Get ctx sid w =
     (case sessions w of
        None \<Rightarrow> (None, None)
      | Some m \<Rightarrow> (case m sid of None \<Rightarrow> (None, None) | Some data \<Rightarrow> (Some data, None)))"

definition inMemoryStore_Update ::
  "time \<Rightarrow> context \<Rightarrow> addr \<Rightarrow> mem_world \<Rightarrow> error option \<times> mem_world" where
  "inMemoryStore_Update now ctx data w =
     (case sessions w of
        None \<Rightarrow> (Some ErrNotFound, w)
      | Some m \<Rightarrow>
          (case m (ID (heap w data)) of
             None \<Rightarrow> (Some ErrNotFound, w)
           | Some stored \<Rightarrow>
               if Version (heap w stored) \<noteq> Version (heap w data)
               then (Some ErrVersionConflict, w)
               else
                 let h = (heap w)(data := (heap w data)
                            \<lparr>Version := Version (heap w data) + 1, UpdatedAt := now\<rparr>)
                 in (None, \<lparr>heap = h, sessions = Some (m(ID (h data) \<mapsto> data))\<rparr>)))"

definition inMemoryStore_Delete ::
  "context \<Rightarrow> string \<Rightarrow> mem_world \<Rightarrow> error option \<times> mem_world" where
  "inMemoryStore_Delete ctx sid w =
     (None, w\<lparr>sessions := map_option (\<lambda>m. m(sid := None)) (sessions w)\<rparr>)"

definition inMemoryStore_Close :: "mem_world \<Rightarrow> error option \<times> mem_world" where
  "inMemoryStore_Close w = (None, w\<lparr>sessions := None\<rparr>)"

text \<open>The record a \<^verbatim>\<open>Get\<close> would hand out, read through the pointer.\<close>

definition mem_stored :: "mem_world \<Rightarrow> string \<Rightarrow> SessionData option" where
  "mem_stored w sid = map_option (heap w) (fst (inMemoryStore_Get Live sid w))"

section \<open>The Redis store (redisStore in session/factory.go, RedisStore in drivers)\<close>

text \<open>
  The Redis server, the client library and \<^verbatim>\<open>encoding/json\<close> are outside the repository.
  The model gives them the smallest shape the store's code relies on.
  \<^item> The database maps a key to its value and the time-to-live set with it.
  \<^item> \<open>client s ctx c\<close> says what becomes of a command \<open>c\<close> issued under \<open>ctx\<close>: \<open>None\<close> when
    it reaches the server and is answered, \<open>Some e\<close> when the client returns the error \<open>e\<close>
    and the server has not run it.
  \<^item> \<open>json\<close> holds \<^verbatim>\<open>json.Marshal\<close> and \<^verbatim>\<open>json.Unmarshal\<close> at \<^verbatim>\<open>SessionData\<close>, each
    able to fail (\<open>Inl\<close> carries the message).
  \<^item> \<open>rival\<close> is what another client does to the watched key between this transaction's
    read and its \<^verbatim>\<open>EXEC\<close>: \<open>None\<close> for nothing, \<open>Some entry\<close> for a write that leaves
    \<open>entry\<close> under the key.  A touched key makes \<^verbatim>\<open>EXEC\<close> fail with \<^verbatim>\<open>redis.TxFailedErr\<close>.
  The store keeps no pointer it is given, so the caller's \<^verbatim>\<open>*SessionData\<close> is passed in by
  value and handed back as the operation leaves it.  \<^verbatim>\<open>redisStore\<close> and
  \<^verbatim>\<open>drivers.RedisStore\<close> differ only in how they spell the key prefix and the JSON calls.
\<close>

type_synonym duration = int

type_synonym redis_db = "string \<rightharpoonup> (string \<times> duration)"

datatype command = WATCH | GET | SET | DEL | EXPIRE | EXEC

record redisStore =
  client :: "context \<Rightarrow> command \<Rightarrow> client_error option"
  ttl :: duration

record codec =
  marshalJSON :: "SessionData \<Rightarrow> string + string"
  unmarshalJSON :: "string \<Rightarrow> string + SessionData"

definition sessionKeyPrefix :: string where
  "sessionKeyPrefix = ''session:''"

definition key :: "string \<Rightarrow> string" where
  "key sid = sessionKeyPrefix @ sid"

definition defaultTTL :: duration where
  "defaultTTL = 24 * 3600 * 1000000000"

definition NewRedisStore ::
  "(context \<Rightarrow> command \<Rightarrow> client_error option) \<Rightarrow> duration \<Rightarrow> redisStore" where
  "NewRedisStore cl t = \<lparr>client = cl, ttl = (if t \<le> 0 then defaultTTL else t)\<rparr>"

definition redisStore_Create ::
  "codec \<Rightarrow> redisStore \<Rightarrow> time \<Rightarrow> context \<Rightarrow> SessionData \<Rightarrow> redis_db
     \<Rightarrow> error option \<times> SessionData \<times> redis_db" where
  "redisStore_Create json s now ctx data db =
     (let k = key (ID data);
          data' = data\<lparr>CreatedAt := now, UpdatedAt := now, Version := 1\<rparr>
      in case marshalJSON json data' of
           Inl e \<Rightarrow> (Some (JSONError e), data', db)
         | Inr val \<Rightarrow>
             (case client s ctx SET of
                Some e \<Rightarrow> (Some (ClientError e), data', db)
              | None \<Rightarrow> (None, data', db(k \<mapsto> (val, ttl s)))))"

definition redisStore_Get ::
  "codec \<Rightarrow> redisStore \<Rightarrow> context \<Rightarrow> string \<Rightarrow> redis_db
     \<Rightarrow> (SessionData option \<times> error option) \<times> redis_db" where
  "redisStore_Get json s ctx sid db =
     (let k = key sid
      in case client s ctx GET of
           Some e \<Rightarrow> ((None, Some (ClientError e)), db)
         | None \<Rightarrow>
             (case db k of
                None \<Rightarrow> ((None, None), db)
              | Some (val, _) \<Rightarrow>
                  (case unmarshalJSON json val of
                     Inl e \<Rightarrow> ((None, Some (JSONError e)), db)
                   | Inr data \<Rightarrow>
                       ((Some data, None),
                        (case client s ctx EXPIRE of
                           Some _ \<Rightarrow> db
                         | None \<Rightarrow> db(k \<mapsto> (val, ttl s)))))))"

definition redisStore_Update ::
  "codec \<Rightarrow> redisStore \<Rightarrow> (string \<times> duration) option option \<Rightarrow> time \<Rightarrow> context
     \<Rightarrow> SessionData \<Rightarrow> redis_db \<Rightarrow> error option \<times> SessionData \<times> redis_db" where
  "redisStore_Update json s rival now ctx data db =
     (let k = key (ID data)
      in (case client s ctx WATCH of
            Some e \<Rightarrow> (Some (ClientError e), data, db)
          | None \<Rightarrow>
         (case client s ctx GET of
            Some e \<Rightarrow> (Some (ClientError e), data, db)
          | None \<Rightarrow>
         (case db k of
            None \<Rightarrow> (Some ErrNotFound, data, db)
          | Some (val, _) \<Rightarrow>
         (case unmarshalJSON json val of
            Inl e \<Rightarrow> (Some (JSONError e), data, db)
          | Inr stored \<Rightarrow>
              (if Version stored \<noteq> Version data then (Some ErrVersionConflict, data, db)
               else
                 (let data' = data\<lparr>Version := Version data + 1, UpdatedAt := now\<rparr>
                  in (case marshalJSON json data' of
                        Inl e \<Rightarrow> (Some (JSONError e), data', db)
                      | Inr newVal \<Rightarrow>
                          (let db1 = (case rival of None \<Rightarrow> db | Some entry \<Rightarrow> db(k := entry))
                           in (case client s ctx EXEC of
                                 Some e \<Rightarrow> (Some (ClientError e), data', db1)
                               | None \<Rightarrow>
                                   (case rival of
                                      Some _ \<Rightarrow> (Some TxFailedErr, data', db1)
                                    | None \<Rightarrow>
                                        (None, data', db(k \<mapsto> (newVal, ttl s))))))))))))))"

definition redisStore_Delete ::
  "redisStore \<Rightarrow> context \<Rightarrow> string \<Rightarrow> redis_db \<Rightarrow> error option \<times> redis_db" where
  "redisStore_Delete s ctx sid db =
     (case client s ctx DEL of
        Some e \<Rightarrow> (Some (ClientError e), db)
      | None \<Rightarrow> (None, db(key sid := None)))"

text \<open>The record a \<^verbatim>\<open>Get\<close> over a working connection decodes, if the key is there.\<close>

definition redis_stored :: "codec \<Rightarrow> redis_db \<Rightarrow> string \<Rightarrow> SessionData option" where
  "redis_stored json db sid =
     (case db (key sid) of
        None \<Rightarrow> None
      | Some (val, _) \<Rightarrow> (case unmarshalJSON json val of Inl _ \<Rightarrow> None | Inr d \<Rightarrow> Some d))"

section \<open>Callers\<close>

text \<open>The zero value of \<^verbatim>\<open>SessionData\<close>, the state of a freshly declared struct.\<close>

definition zero_SessionData :: SessionData where
  "zero_SessionData =
     \<lparr>ID = [], CreatedAt = 0, UpdatedAt = 0, Version = 0, ConversationHistory = [],
      SystemPrompt = [], Keyterms = [], Language = [], TTSEnabled = False,
      AllowedOrigins = [], RateLimits = Map.empty, Config = Map.empty\<rparr>"

text \<open>
  A caller that updates a session again and again, one round per clock reading: fetch the
  session with \<^verbatim>\<open>Get\<close>, hand what came back to \<^verbatim>\<open>Update\<close>.  The rounds stop with \<open>None\<close>
  at the first call that does not succeed.
\<close>

fun mem_update_rounds :: "time list \<Rightarrow> context \<Rightarrow> string \<Rightarrow> mem_world \<Rightarrow> mem_world option" where
  "mem_update_rounds [] ctx sid w = Some w"
| "mem_update_rounds (now # later) ctx sid w =
     (case inMemoryStore_Get ctx sid w of
        (Some data, None) \<Rightarrow>
          (case inMemoryStore_Update now ctx data w of
             (None, w') \<Rightarrow> mem_update_rounds later ctx sid w'
           | (Some e, w') \<Rightarrow> None)
      | (Some data, Some e) \<Rightarrow> None
      | (None, r) \<Rightarrow> None)"

fun redis_update_rounds ::
  "codec \<Rightarrow> redisStore \<Rightarrow> time list \<Rightarrow> context \<Rightarrow> string \<Rightarrow> redis_db \<Rightarrow> redis_db option" where
  "redis_update_rounds json s [] ctx sid db = Some db"
| "redis_update_rounds json s (now # later) ctx sid db =
     (case redisStore_Get json s ctx sid db of
        ((Some data, None), db1) \<Rightarrow>
          (case redisStore_Update json s None now ctx data db1 of
             (None, data', db2) \<Rightarrow> redis_update_rounds json s later ctx sid db2
           | (Some e, data', db2) \<Rightarrow> None)
      | ((Some data, Some e), db1) \<Rightarrow> None
      | ((None, r), db1) \<Rightarrow> None)"

text \<open>
  What the rounds over Redis need from the JSON encoding: every record can be encoded,
  and decoding the result gives a record with the same \<^verbatim>\<open>ID\<close> and \<^verbatim>\<open>Version\<close>.
\<close>

definition codec_keeps_id_version :: "codec \<Rightarrow> bool" where
  "codec_keeps_id_version json =
     (\<forall>d. \<exists>v d'. marshalJSON json d = Inr v \<and> unmarshalJSON json v = Inr d'
                  \<and> ID d' = ID d \<and> Version d' = Version d)"

text \<open>
  A small encoding with that property, for examples: the version in unary, a colon, the
  ID.  All other fields are dropped.
\<close>

definition tally_codec :: codec where
  "tally_codec =
     \<lparr>marshalJSON = (\<lambda>d. Inr (replicate (unat (Version d)) (CHR ''+'') @ CHR '':'' # ID d)),
      unmarshalJSON = (\<lambda>v. Inr (zero_SessionData
         \<lparr>ID := tl (dropWhile (\<lambda>c. c = CHR ''+'') v),
          Version := of_nat (length (takeWhile (\<lambda>c. c = CHR ''+'') v))\<rparr>))\<rparr>"

text \<open>
  An encoding with fixed answers, for examples: \<^verbatim>\<open>Marshal\<close> always returns \<open>enc\<close> (which
  may be a failure), \<^verbatim>\<open>Unmarshal\<close> always decodes to \<open>stored\<close>.
\<close>

definition constant_codec :: "string + string \<Rightarrow> SessionData \<Rightarrow> codec" where
  "constant_codec enc stored =
     \<lparr>marshalJSON = (\<lambda>d. enc), unmarshalJSON = (\<lambda>v. Inr stored)\<rparr>"

text \<open>
  Two structs a caller holds, at addresses 0 and 1, both with the ID \<^verbatim>\<open>"s1"\<close>; the second
  carries a version and timestamps of the caller's own choosing.
\<close>

definition example_heap :: "addr \<Rightarrow> SessionData" where
  "example_heap =
     (\<lambda>a. zero_SessionData)
       (0 := zero_SessionData\<lparr>ID := ''s1''\<rparr>,
        1 := zero_SessionData\<lparr>ID := ''s1'', CreatedAt := 3, UpdatedAt := 4, Version := 7\<rparr>)"

text \<open>A connection on which every command reaches the server.\<close>

definition working_client :: "context \<Rightarrow> command \<Rightarrow> client_error option" where
  "working_client ctx c = None"

text \<open>
  A client that answers a finished context the way \<^verbatim>\<open>go-redis\<close> does: every command
  issued under it fails with \<^verbatim>\<open>ctx.Err()\<close>.
\<close>

definition ctx_checking_client :: "context \<Rightarrow> command \<Rightarrow> client_error option" where
  "ctx_checking_client ctx c = ctx_Err ctx"

text \<open>
  The in-memory store after \<^verbatim>\<open>Create\<close> has stored the first struct at time 5, a Redis
  store over a working connection, and a database whose entry for \<^verbatim>\<open>"s1"\<close> is the
  \<open>tally_codec\<close> encoding of version 1.
\<close>

definition example_world :: mem_world where
  "example_world =
     \<lparr>heap = example_heap(0 := (example_heap 0)\<lparr>CreatedAt := 5, UpdatedAt := 5, Version := 1\<rparr>),
      sessions = Some [''s1'' \<mapsto> 0]\<rparr>"

definition example_redis :: redisStore where
  "example_redis = \<lparr>client = working_client, ttl = defaultTTL\<rparr>"

definition example_db :: redis_db where
  "example_db = [key ''s1'' \<mapsto> (''+:s1'', defaultTTL)]"

section \<open>Properties of the token estimator\<close>

lemma weight_loop_acc: "weight_loop rs w = w + spec_weight_sum rs"
  by (induction rs arbitrary: w) (auto simp: spec_weight_sum_def char_weight_def)

lemma spec_weight_sum_nonneg: "0 \<le> spec_weight_sum rs"
  by (induction rs) (auto simp: spec_weight_sum_def char_weight_def)

lemma go_quot_nonneg: "0 \<le> a \<Longrightarrow> 0 < b \<Longrightarrow> go_quot a b = a div b"
  by (cases "a = 0") (auto simp: go_quot_def)

lemma EstimateTokens_div: "EstimateTokens rs = (spec_weight_sum rs + 3) div 4"
  using spec_weight_sum_nonneg[of rs]
  by (simp add: EstimateTokens_def weight_loop_acc go_quot_nonneg)

text \<open>
  Claim C7.  For every text, \<open>EstimateTokens\<close> returns \<open>(sum + 3) / 4\<close>, which is \<open>sum / 4\<close>
  rounded up and is never negative, where \<open>sum\<close> adds 1 for each code point up to 127 and
  4 for every other one.  The text \<^verbatim>\<open>"test"\<close> (runes 116, 101, 115, 116) gives 1, the three
  runes U+65E5, U+672C, U+8A9E of the Japanese word for "Japanese" give 3, and the empty
  text gives 0.
\<close>

theorem EstimateTokens_weighted_ceiling:
  "EstimateTokens rs = (spec_weight_sum rs + 3) div 4
   \<and> EstimateTokens rs = \<lceil>real_of_int (spec_weight_sum rs) / 4\<rceil>
   \<and> 0 \<le> EstimateTokens rs
   \<and> EstimateTokens [116, 101, 115, 116] = 1
   \<and> EstimateTokens [0x65E5, 0x672C, 0x8A9E] = 3
   \<and> EstimateTokens [] = 0"
proof -
  have ceil: "(spec_weight_sum rs + 3) div 4 = \<lceil>real_of_int (spec_weight_sum rs) / 4\<rceil>"
    by linarith
  have nonneg: "0 \<le> (spec_weight_sum rs + 3) div 4"
    using spec_weight_sum_nonneg[of rs] by simp
  have ex: "EstimateTokens [116, 101, 115, 116] = 1"
    "EstimateTokens [0x65E5, 0x672C, 0x8A9E] = 3" "EstimateTokens [] = 0"
    by (simp_all add: EstimateTokens_def go_quot_def)
  show ?thesis
    using ceil nonneg ex by (simp add: EstimateTokens_div)
qed

section \<open>Properties of history truncation\<close>

lemma wrap64_id: "- (2 ^ 63) \<le> x \<Longrightarrow> x < 2 ^ 63 \<Longrightarrow> wrap64 x = x"
  unfolding wrap64_def by (rule signed_take_bit_int_eq_self)

lemma wrap64_0: "wrap64 0 = 0"
  by (simp add: wrap64_def)

lemma wrap64_add_left: "wrap64 (wrap64 a + b) = wrap64 (a + b)"
proof -
  have "signed_take_bit 63 (signed_take_bit 63 a + b)
          = signed_take_bit 63 (signed_take_bit 63 (signed_take_bit 63 a) + signed_take_bit 63 b)"
    by (rule signed_take_bit_add[symmetric])
  also have "\<dots> = signed_take_bit 63 (signed_take_bit 63 a + signed_take_bit 63 b)" by simp
  also have "\<dots> = signed_take_bit (63::nat) (a + b)" by (rule signed_take_bit_add)
  finally show ?thesis by (simp add: wrap64_def)
qed

lemma wrap64_diff_left: "wrap64 (wrap64 a - b) = wrap64 (a - b)"
proof -
  have "signed_take_bit 63 (signed_take_bit 63 a - b)
          = signed_take_bit 63 (signed_take_bit 63 (signed_take_bit 63 a) - signed_take_bit 63 b)"
    by (rule signed_take_bit_diff[symmetric])
  also have "\<dots> = signed_take_bit 63 (signed_take_bit 63 a - signed_take_bit 63 b)" by simp
  also have "\<dots> = signed_take_bit (63::nat) (a - b)" by (rule signed_take_bit_diff)
  finally show ?thesis by (simp add: wrap64_def)
qed

lemma sum_tokens_wrap: "sum_tokens h (wrap64 a) = wrap64 (a + sum_list (map TokenCount h))"
proof (induction h arbitrary: a)
  case Nil
  then show ?case by simp
next
  case (Cons m ms)
  have "sum_tokens (m # ms) (wrap64 a) = sum_tokens ms (wrap64 (a + TokenCount m))"
    by (simp add: wrap64_add_left)
  also have "\<dots> = wrap64 (a + TokenCount m + sum_list (map TokenCount ms))"
    by (rule Cons.IH)
  finally show ?case by (simp add: add.assoc)
qed

lemma sum_tokens_go_total: "sum_tokens h 0 = go_total h"
  using sum_tokens_wrap[of h 0] by (simp add: wrap64_0 go_total_def)

lemma go_total_tail: "wrap64 (go_total (m # ms) - TokenCount m) = go_total ms"
  by (simp add: go_total_def wrap64_diff_left)

lemma drop_oldest_within: "t \<le> budget \<Longrightarrow> drop_oldest t budget h = h"
  by (cases h) auto

lemma drop_oldest_suffix: "\<exists>k\<le>length h. drop_oldest t budget h = drop k h"
proof (induction h arbitrary: t)
  case Nil
  then show ?case by simp
next
  case (Cons m ms)
  show ?case
  proof (cases "t > budget")
    case True
    from Cons.IH[of "wrap64 (t - TokenCount m)"] obtain k
      where "k \<le> length ms" "drop_oldest (wrap64 (t - TokenCount m)) budget ms = drop k ms"
      by blast
    then have "Suc k \<le> length (m # ms) \<and>
               drop_oldest t budget (m # ms) = drop (Suc k) (m # ms)"
      using True by simp
    then show ?thesis by blast
  next
    case False
    then have "drop_oldest t budget (m # ms) = drop 0 (m # ms)" by simp
    then show ?thesis by blast
  qed
qed

lemma drop_oldest_post:
  "drop_oldest (go_total h) budget h = [] \<or>
   go_total (drop_oldest (go_total h) budget h) \<le> budget"
proof (induction h)
  case Nil
  then show ?case by simp
next
  case (Cons m ms)
  show ?case
  proof (cases "go_total (m # ms) > budget")
    case True
    then have "drop_oldest (go_total (m # ms)) budget (m # ms)
                 = drop_oldest (go_total ms) budget ms"
      by (simp add: go_total_tail)
    then show ?thesis using Cons.IH by simp
  next
    case False
    then show ?thesis by simp
  qed
qed

lemma TruncateHistory_panic_iff:
  "(TruncateHistory h t m = Inl p) = (h \<noteq> [] \<and> m < 0 \<and> p = SliceBoundsOutOfRange)"
  by (auto simp: TruncateHistory_def slice_from_def split: sum.splits if_splits)

lemma TruncateHistory_ok:
  "0 \<le> m \<Longrightarrow> TruncateHistory h t m =
     Inr (drop_oldest (go_total (drop (length h - nat m) h)) t (drop (length h - nat m) h))"
  using nat_diff_distrib
  by (auto simp: TruncateHistory_def slice_from_def sum_tokens_go_total
           split: sum.splits if_splits)

lemma TruncateHistory_within:
  assumes "int (length h) \<le> m" "go_total h \<le> t"
  shows "TruncateHistory h t m = Inr h"
proof -
  have "0 \<le> m" using assms(1) by linarith
  moreover have "length h - nat m = 0" using assms(1) by linarith
  ultimately show ?thesis using assms(2) by (simp add: TruncateHistory_ok drop_oldest_within)
qed

lemma TruncateHistory_suffix:
  assumes "TruncateHistory h t m = Inr kept"
  shows "\<exists>n\<le>length h. kept = drop n h"
proof (cases "h = []")
  case True
  then show ?thesis using assms by (simp add: TruncateHistory_def)
next
  case False
  then have m0: "0 \<le> m"
    using assms TruncateHistory_panic_iff[of h t m SliceBoundsOutOfRange] by (cases "m < 0") auto
  define h' where "h' = drop (length h - nat m) h"
  have "kept = drop_oldest (go_total h') t h'"
    using assms m0 by (simp add: TruncateHistory_ok h'_def)
  then obtain k where "k \<le> length h'" "kept = drop k h'"
    using drop_oldest_suffix[of h' "go_total h'" t] by auto
  then have "kept = drop (k + (length h - nat m)) h" "k + (length h - nat m) \<le> length h"
    by (auto simp: h'_def)
  then show ?thesis by blast
qed

lemma TruncateHistory_result_bounds:
  assumes "TruncateHistory h t m = Inr kept" "kept \<noteq> []"
  shows "int (length kept) \<le> m \<and> go_total kept \<le> t"
proof -
  have hne: "h \<noteq> []" using assms by (auto simp: TruncateHistory_def)
  then have m0: "0 \<le> m"
    using assms(1) TruncateHistory_panic_iff[of h t m SliceBoundsOutOfRange]
    by (cases "m < 0") auto
  define h' where "h' = drop (length h - nat m) h"
  have k: "kept = drop_oldest (go_total h') t h'"
    using assms m0 by (simp add: TruncateHistory_ok h'_def)
  obtain n where "kept = drop n h'"
    using drop_oldest_suffix[of h' "go_total h'" t] k by auto
  then have "length kept \<le> length h'" by simp
  moreover have "int (length h') \<le> m" using m0 by (simp add: h'_def)
  ultimately have "int (length kept) \<le> m" by linarith
  moreover have "go_total kept \<le> t"
    using drop_oldest_post[of h' t] k assms(2) by auto
  ultimately show ?thesis by simp
qed

lemma TruncateHistory_idem:
  assumes "TruncateHistory h t m = Inr kept"
  shows "TruncateHistory kept t m = Inr kept"
proof (cases "kept = []")
  case True
  then show ?thesis by (simp add: TruncateHistory_def)
next
  case False
  then show ?thesis
    using TruncateHistory_result_bounds[OF assms] TruncateHistory_within by blast
qed

lemma tokens_sum_nonneg:
  "\<forall>m\<in>set h. 0 \<le> TokenCount m \<Longrightarrow> 0 \<le> sum_list (map TokenCount h)"
  by (induction h) auto

lemma go_total_no_wrap:
  assumes "\<forall>m\<in>set h. 0 \<le> TokenCount m" "sum_list (map TokenCount h) < 2 ^ 63"
  shows "go_total h = sum_list (map TokenCount h)"
proof -
  have "0 \<le> sum_list (map TokenCount h)" using assms(1) by (rule tokens_sum_nonneg)
  then have "- (2 ^ 63) \<le> sum_list (map TokenCount h)"
    using order_trans[of "- (2 ^ 63)" 0 "sum_list (map TokenCount h)"] by simp
  then show ?thesis unfolding go_total_def using assms(2) by (rule wrap64_id)
qed

lemma tokens_all_zero:
  assumes "\<forall>m\<in>set h. 0 \<le> TokenCount m" "sum_list (map TokenCount h) \<le> 0"
  shows "\<forall>m\<in>set h. TokenCount m = 0"
  using assms
proof (induction h)
  case Nil
  then show ?case by simp
next
  case (Cons a h)
  have a0: "0 \<le> TokenCount a" and hn: "\<forall>m\<in>set h. 0 \<le> TokenCount m"
    using Cons.prems(1) by simp_all
  have s0: "0 \<le> sum_list (map TokenCount h)" using tokens_sum_nonneg[OF hn] .
  have "TokenCount a + sum_list (map TokenCount h) \<le> 0" using Cons.prems(2) by simp
  then have "TokenCount a = 0" "sum_list (map TokenCount h) \<le> 0" using a0 s0 by linarith+
  then show ?case using Cons.IH[OF hn] by simp
qed

lemma zero_suffix_all_zero: "\<forall>m\<in>set h. TokenCount m = 0 \<Longrightarrow> zero_suffix h = h"
  by (simp add: zero_suffix_def takeWhile_eq_all_conv[THEN iffD2])

lemma tokens_zero_sum: "\<forall>m\<in>set h. TokenCount m = 0 \<Longrightarrow> sum_list (map TokenCount h) = 0"
  by (induction h) auto

lemma zero_suffix_Cons:
  "\<not> (\<forall>x\<in>set (m # ms). TokenCount x = 0) \<Longrightarrow> zero_suffix (m # ms) = zero_suffix ms"
proof (cases "\<forall>x\<in>set ms. TokenCount x = 0")
  case True
  assume "\<not> (\<forall>x\<in>set (m # ms). TokenCount x = 0)"
  then have "TokenCount m \<noteq> 0" using True by simp
  moreover have "\<And>x. x \<in> set (rev ms) \<Longrightarrow> TokenCount x = 0" using True by simp
  then have "takeWhile (\<lambda>m. TokenCount m = 0) (rev ms @ [m])
               = rev ms @ takeWhile (\<lambda>m. TokenCount m = 0) [m]"
    by (rule takeWhile_append2)
  ultimately have "takeWhile (\<lambda>m. TokenCount m = 0) (rev ms @ [m]) = rev ms"
    by simp
  then have "zero_suffix (m # ms) = ms" by (simp add: zero_suffix_def)
  then show ?thesis using zero_suffix_all_zero[OF True] by simp
next
  case False
  then obtain x where "x \<in> set (rev ms)" "\<not> TokenCount x = 0" by auto
  then have "takeWhile (\<lambda>m. TokenCount m = 0) (rev ms @ [m])
               = takeWhile (\<lambda>m. TokenCount m = 0) (rev ms)"
    by (rule takeWhile_append1)
  then show ?thesis by (simp add: zero_suffix_def)
qed

lemma drop_oldest_zero_budget:
  assumes "\<forall>m\<in>set h. 0 \<le> TokenCount m" "sum_list (map TokenCount h) < 2 ^ 63"
  shows "drop_oldest (go_total h) 0 h = zero_suffix h"
  using assms
proof (induction h)
  case Nil
  then show ?case by (simp add: zero_suffix_def)
next
  case (Cons a h)
  have hn: "\<forall>m\<in>set h. 0 \<le> TokenCount m" using Cons.prems(1) by simp
  have a0: "0 \<le> TokenCount a" using Cons.prems(1) by simp
  have hs: "sum_list (map TokenCount h) < 2 ^ 63" using Cons.prems(2) a0 by simp
  have tot: "go_total (a # h) = sum_list (map TokenCount (a # h))"
    using Cons.prems by (rule go_total_no_wrap)
  show ?case
  proof (cases "sum_list (map TokenCount (a # h)) > 0")
    case True
    then have "\<not> (\<forall>x\<in>set (a # h). TokenCount x = 0)"
      using tokens_zero_sum[of "a # h"] by linarith
    then have z: "zero_suffix (a # h) = zero_suffix h" by (rule zero_suffix_Cons)
    have "go_total (a # h) > 0" using True tot by simp
    then have "drop_oldest (go_total (a # h)) 0 (a # h)
                 = drop_oldest (wrap64 (go_total (a # h) - TokenCount a)) 0 h"
      by simp
    then have "drop_oldest (go_total (a # h)) 0 (a # h) = drop_oldest (go_total h) 0 h"
      by (simp only: go_total_tail)
    then show ?thesis using Cons.IH[OF hn hs] z by simp
  next
    case False
    then have le: "sum_list (map TokenCount (a # h)) \<le> 0" by simp
    have z: "\<forall>m\<in>set (a # h). TokenCount m = 0" using tokens_all_zero[OF Cons.prems(1) le] .
    have "drop_oldest (go_total (a # h)) 0 (a # h) = a # h"
      using le tot by (simp add: drop_oldest_within)
    then show ?thesis using zero_suffix_all_zero[OF z] by simp
  qed
qed

lemma zero_suffix_empty_iff: "h \<noteq> [] \<Longrightarrow> (zero_suffix h = []) = (TokenCount (last h) \<noteq> 0)"
  by (cases "rev h") (auto simp: zero_suffix_def last_rev hd_rev)

lemma tokens_suffix_sum_le:
  assumes "\<forall>m\<in>set h. 0 \<le> TokenCount m"
  shows "sum_list (map TokenCount (drop k h)) \<le> sum_list (map TokenCount h)"
proof -
  have "\<forall>m\<in>set (take k h). 0 \<le> TokenCount m" using assms by (auto dest: in_set_takeD)
  then have "0 \<le> sum_list (map TokenCount (take k h))" by (rule tokens_sum_nonneg)
  moreover have "sum_list (map TokenCount h)
      = sum_list (map TokenCount (take k h)) + sum_list (map TokenCount (drop k h))"
    by (metis append_take_drop_id map_append sum_list_append)
  ultimately show ?thesis by linarith
qed

lemma TruncateHistory_zero_token_budget:
  assumes "0 \<le> m" "\<forall>x\<in>set h. 0 \<le> TokenCount x" "sum_list (map TokenCount h) < 2 ^ 63"
  shows "TruncateHistory h 0 m = Inr (zero_suffix (drop (length h - nat m) h))"
proof -
  define h' where "h' = drop (length h - nat m) h"
  have nn: "\<forall>x\<in>set h'. 0 \<le> TokenCount x"
    using assms(2) by (auto simp: h'_def dest: in_set_dropD)
  have "sum_list (map TokenCount h') \<le> sum_list (map TokenCount h)"
    unfolding h'_def using assms(2) by (rule tokens_suffix_sum_le)
  then have lt: "sum_list (map TokenCount h') < 2 ^ 63" using assms(3) by linarith
  have "TruncateHistory h 0 m = Inr (drop_oldest (go_total h') 0 h')"
    using assms(1) by (simp add: TruncateHistory_ok h'_def)
  then show ?thesis using drop_oldest_zero_budget[OF nn lt] by (simp add: h'_def)
qed

lemma wrap64_high: "wrap64 9223372036854775808 = - 9223372036854775808"
  by (simp add: wrap64_def signed_take_bit_eq_take_bit_shift take_bit_eq_mod)

lemma wrap64_low: "wrap64 (- 9223372036854775809) = 9223372036854775807"
  by (simp add: wrap64_def signed_take_bit_eq_take_bit_shift take_bit_eq_mod)

text \<open>
  Two histories on which the 64-bit total wraps.  Counts of 2^62 and 2^62 sum to -2^63
  in the code, which is not above a budget of 0: both messages stay.  Counts of -2^63 and
  -1 sum to 2^63 - 1, which is: the first message goes.
\<close>

lemma TruncateHistory_total_wraps_high:
  "TruncateHistory
     [\<lparr>Role = ''user'', Content = [], TokenCount = 2 ^ 62, Timestamp = 1\<rparr>,
      \<lparr>Role = ''assistant'', Content = [], TokenCount = 2 ^ 62, Timestamp = 2\<rparr>] 0 2
   = Inr [\<lparr>Role = ''user'', Content = [], TokenCount = 2 ^ 62, Timestamp = 1\<rparr>,
          \<lparr>Role = ''assistant'', Content = [], TokenCount = 2 ^ 62, Timestamp = 2\<rparr>]"
  by (simp add: TruncateHistory_def sum_tokens_go_total go_total_def wrap64_high
           del: sum_tokens.simps)

lemma TruncateHistory_total_wraps_low:
  "TruncateHistory
     [\<lparr>Role = ''user'', Content = [], TokenCount = - (2 ^ 63), Timestamp = 1\<rparr>,
      \<lparr>Role = ''assistant'', Content = [], TokenCount = - 1, Timestamp = 2\<rparr>] 0 2
   = Inr [\<lparr>Role = ''assistant'', Content = [], TokenCount = - 1, Timestamp = 2\<rparr>]"
proof -
  have b: "wrap64 18446744073709551615 = - 1"
    by (simp add: wrap64_def signed_take_bit_eq_take_bit_shift take_bit_eq_mod)
  show ?thesis
    by (simp add: TruncateHistory_def sum_tokens_go_total go_total_def wrap64_low b
           del: sum_tokens.simps)
qed

text \<open>
  Claim C9.  A history that is within both budgets comes back unchanged: the same
  messages in the same order.  The first part takes the token sum as the code computes
  it, in 64 bits; the second takes the mathematical sum, for token counts that are not
  negative (as the data model has them) and a token limit that a Go \<^verbatim>\<open>int\<close> can hold.
  Whatever \<open>TruncateHistory\<close> returns is the input with some messages removed from the
  front, and truncating the result again with the same limits returns it unchanged.
\<close>

theorem TruncateHistory_within_budget_unchanged:
  "(int (length history) \<le> messageLimit \<and> sum_tokens history 0 \<le> tokenLimit
      \<longrightarrow> TruncateHistory history tokenLimit messageLimit = Inr history)
   \<and> (int (length history) \<le> messageLimit \<and> (\<forall>m\<in>set history. 0 \<le> TokenCount m)
      \<and> tokenLimit < 2 ^ 63 \<and> sum_list (map TokenCount history) \<le> tokenLimit
      \<longrightarrow> TruncateHistory history tokenLimit messageLimit = Inr history)
   \<and> (\<forall>kept. TruncateHistory history tokenLimit messageLimit = Inr kept
        \<longrightarrow> (\<exists>n\<le>length history. kept = drop n history)
            \<and> TruncateHistory kept tokenLimit messageLimit = Inr kept)"
proof (intro conjI impI allI)
  assume "int (length history) \<le> messageLimit \<and> sum_tokens history 0 \<le> tokenLimit"
  then show "TruncateHistory history tokenLimit messageLimit = Inr history"
    by (simp add: TruncateHistory_within sum_tokens_go_total)
next
  assume a: "int (length history) \<le> messageLimit \<and> (\<forall>m\<in>set history. 0 \<le> TokenCount m)
      \<and> tokenLimit < 2 ^ 63 \<and> sum_list (map TokenCount history) \<le> tokenLimit"
  then have "sum_list (map TokenCount history) < 2 ^ 63" by linarith
  then have "go_total history = sum_list (map TokenCount history)"
    using a go_total_no_wrap by blast
  then show "TruncateHistory history tokenLimit messageLimit = Inr history"
    using a by (simp add: TruncateHistory_within)
next
  fix kept
  assume "TruncateHistory history tokenLimit messageLimit = Inr kept"
  then show "\<exists>n\<le>length history. kept = drop n history"
    by (rule TruncateHistory_suffix)
next
  fix kept
  assume "TruncateHistory history tokenLimit messageLimit = Inr kept"
  then show "TruncateHistory kept tokenLimit messageLimit = Inr kept"
    by (rule TruncateHistory_idem)
qed

text \<open>
  A two-message history built by \<open>AddMessageToHistory\<close> (token counts 1 and 2): within the
  budgets 3 and 2 it is returned as it is; what a token budget of 2 leaves of it is
  returned as it is by a second call.
\<close>

theorem TruncateHistory_within_budget_unchanged_witness:
  "TruncateHistory (AddMessageToHistory 2 (AddMessageToHistory 1 [] ''user'' [104, 105])
                      ''assistant'' [104, 101, 108, 108, 111]) 3 2
     = Inr (AddMessageToHistory 2 (AddMessageToHistory 1 [] ''user'' [104, 105])
                      ''assistant'' [104, 101, 108, 108, 111])
   \<and> TruncateHistory (drop 1 (AddMessageToHistory 2 (AddMessageToHistory 1 [] ''user'' [104, 105])
                      ''assistant'' [104, 101, 108, 108, 111])) 2 2
     = Inr (drop 1 (AddMessageToHistory 2 (AddMessageToHistory 1 [] ''user'' [104, 105])
                      ''assistant'' [104, 101, 108, 108, 111]))"
proof -
  define h where "h = AddMessageToHistory 2 (AddMessageToHistory 1 [] ''user'' [104, 105])
              ''assistant'' [104, 101, 108, 108, 111]"
  have code_sum: "int (length h) \<le> 2 \<and> sum_tokens h 0 \<le> 3"
    by (simp add: h_def AddMessageToHistory_def EstimateTokens_def go_quot_def wrap64_id)
  have spec_sum: "int (length h) \<le> 2 \<and> (\<forall>m\<in>set h. 0 \<le> TokenCount m)
      \<and> (3::int) < 2 ^ 63 \<and> sum_list (map TokenCount h) \<le> 3"
    by (simp add: h_def AddMessageToHistory_def EstimateTokens_def go_quot_def)
  have cut: "TruncateHistory h 2 2 = Inr (drop 1 h)"
    by (simp add: h_def TruncateHistory_def AddMessageToHistory_def EstimateTokens_def
          go_quot_def wrap64_id)
  have a: "TruncateHistory h 3 2 = Inr h"
    using code_sum spec_sum TruncateHistory_within_budget_unchanged[of h 2 3] by blast
  have b: "TruncateHistory (drop 1 h) 2 2 = Inr (drop 1 h)"
    using cut TruncateHistory_within_budget_unchanged[of h 2 2] by blast
  show ?thesis using a b unfolding h_def by (rule conjI)
qed

text \<open>
  Claim C6.  The claim is that \<open>TruncateHistory\<close> returns a result for every message limit
  and token limit, the non-positive ones included.  The code does so for every token
  limit and for a message limit of 0, but on a non-empty history a negative message limit
  makes \<^verbatim>\<open>history[len(history)-messageLimit:]\<close> start beyond the end of the slice, and the
  call panics (\<open>TruncateHistory_panic_iff\<close> above says when).  Here: one message, message
  limit -1.
\<close>

theorem TruncateHistory_negative_messageLimit_panics:
  "TruncateHistory (AddMessageToHistory 1 [] ''user'' [104, 105]) 10 (- 1)
     = Inl SliceBoundsOutOfRange"
  by (simp add: TruncateHistory_def AddMessageToHistory_def slice_from_def)

text \<open>
  Claim C8, as the code has it.  The empty history is returned unchanged, and a message
  budget of 0 drains every history to empty.  A token budget of 0 does not always do so:
  the loop drops the oldest message only while the remaining counts sum to more than 0.
  For token counts that are not negative and sum to less than 2^63 (so that the running
  total does not wrap), and a message budget of at least 0, the result is exactly the
  trailing run of zero-token messages among the last \<open>messageLimit\<close> messages; with a
  message budget of at least 1 it is empty exactly when the last message of the history
  has a positive token count.
\<close>

theorem TruncateHistory_zero_budget:
  "TruncateHistory [] tokenLimit messageLimit = Inr []
   \<and> TruncateHistory history tokenLimit 0 = Inr []
   \<and> (0 \<le> messageLimit \<and> (\<forall>m\<in>set history. 0 \<le> TokenCount m)
       \<and> sum_list (map TokenCount history) < 2 ^ 63 \<longrightarrow>
        TruncateHistory history 0 messageLimit
          = Inr (zero_suffix (drop (length history - nat messageLimit) history)))
   \<and> (1 \<le> messageLimit \<and> history \<noteq> [] \<and> (\<forall>m\<in>set history. 0 \<le> TokenCount m)
       \<and> sum_list (map TokenCount history) < 2 ^ 63 \<longrightarrow>
        (TruncateHistory history 0 messageLimit = Inr [] \<longleftrightarrow> 0 < TokenCount (last history)))"
proof (intro conjI impI)
  show "TruncateHistory [] tokenLimit messageLimit = Inr []"
    by (simp add: TruncateHistory_def)
  show "TruncateHistory history tokenLimit 0 = Inr []"
    by (simp add: TruncateHistory_ok)
next
  assume "0 \<le> messageLimit \<and> (\<forall>m\<in>set history. 0 \<le> TokenCount m)
       \<and> sum_list (map TokenCount history) < 2 ^ 63"
  then show "TruncateHistory history 0 messageLimit
          = Inr (zero_suffix (drop (length history - nat messageLimit) history))"
    using TruncateHistory_zero_token_budget by blast
next
  assume pre: "1 \<le> messageLimit \<and> history \<noteq> [] \<and> (\<forall>m\<in>set history. 0 \<le> TokenCount m)
       \<and> sum_list (map TokenCount history) < 2 ^ 63"
  define h' where "h' = drop (length history - nat messageLimit) history"
  have lt: "length history - nat messageLimit < length history"
    using pre by (cases history) auto
  then have ne: "h' \<noteq> []" by (simp add: h'_def)
  have lst: "last h' = last history" using lt by (simp add: h'_def last_drop)
  have "0 \<le> messageLimit" using pre by linarith
  then have eq: "TruncateHistory history 0 messageLimit = Inr (zero_suffix h')"
    using pre TruncateHistory_zero_token_budget[of messageLimit history] by (simp add: h'_def)
  have "0 \<le> TokenCount (last history)" using pre by simp
  then have "(TokenCount (last history) \<noteq> 0) = (0 < TokenCount (last history))" by linarith
  then show "TruncateHistory history 0 messageLimit = Inr [] \<longleftrightarrow> 0 < TokenCount (last history)"
    using eq zero_suffix_empty_iff[OF ne] lst by simp
qed

text \<open>
  A history whose last message has empty content, hence a token count of 0: under a token
  budget of 0 exactly that message survives.
\<close>

theorem TruncateHistory_zero_budget_witness:
  "TruncateHistory (AddMessageToHistory 2 (AddMessageToHistory 1 [] ''user'' [104, 105])
       ''assistant'' []) 0 2
     = Inr (drop 1 (AddMessageToHistory 2 (AddMessageToHistory 1 [] ''user'' [104, 105])
       ''assistant'' []))
   \<and> TruncateHistory (AddMessageToHistory 2 (AddMessageToHistory 1 [] ''user'' [104, 105])
       ''assistant'' []) 0 2 \<noteq> Inr []"
proof -
  define h where "h = AddMessageToHistory 2 (AddMessageToHistory 1 [] ''user'' [104, 105]) ''assistant'' []"
  have pre: "(1::int) \<le> 2 \<and> h \<noteq> [] \<and> (\<forall>m\<in>set h. 0 \<le> TokenCount m)
      \<and> sum_list (map TokenCount h) < 2 ^ 63"
    by (simp add: h_def AddMessageToHistory_def EstimateTokens_def go_quot_def)
  have zs: "zero_suffix (drop (length h - nat 2) h) = drop 1 h"
    by (simp add: h_def zero_suffix_def AddMessageToHistory_def EstimateTokens_def go_quot_def)
  have lst: "\<not> 0 < TokenCount (last h)"
    by (simp add: h_def AddMessageToHistory_def EstimateTokens_def go_quot_def)
  have a: "TruncateHistory h 0 2 = Inr (zero_suffix (drop (length h - nat 2) h))"
    using pre TruncateHistory_zero_budget[of 0 2 h] by simp
  have b: "TruncateHistory h 0 2 \<noteq> Inr []"
    using pre lst TruncateHistory_zero_budget[of 0 2 h] by blast
  show ?thesis using a b zs unfolding h_def by simp
qed

text \<open>
  Claim C8 as stated fails: a single message with empty content is a non-empty history
  that a token budget of 0 leaves as it is.
\<close>

theorem TruncateHistory_zero_token_budget_counterexample:
  "AddMessageToHistory 1 [] ''user'' [] \<noteq> []
   \<and> TruncateHistory (AddMessageToHistory 1 [] ''user'' []) 0 1
       = Inr (AddMessageToHistory 1 [] ''user'' [])"
  by (simp add: TruncateHistory_def AddMessageToHistory_def EstimateTokens_def go_quot_def
        wrap64_0)

section \<open>Properties of the in-memory store\<close>

lemma mem_stored_Some:
  "(mem_stored w sid = Some d) =
     (\<exists>m p. sessions w = Some m \<and> m sid = Some p \<and> heap w p = d)"
  by (auto simp: mem_stored_def inMemoryStore_Get_def split: option.splits)

lemma mem_stored_None:
  "(mem_stored w sid = None) = (\<forall>m. sessions w = Some m \<longrightarrow> m sid = None)"
  by (auto simp: mem_stored_def inMemoryStore_Get_def split: option.splits)

lemma inMemoryStore_Update_NotFound:
  "mem_stored w (ID (heap w data)) = None \<Longrightarrow>
   inMemoryStore_Update now ctx data w = (Some ErrNotFound, w)"
  by (auto simp: mem_stored_None inMemoryStore_Update_def split: option.splits)

lemma inMemoryStore_Update_Conflict:
  "mem_stored w (ID (heap w data)) = Some stored \<Longrightarrow> Version stored \<noteq> Version (heap w data) \<Longrightarrow>
   inMemoryStore_Update now ctx data w = (Some ErrVersionConflict, w)"
  by (auto simp: mem_stored_Some inMemoryStore_Update_def split: option.splits)

lemma inMemoryStore_Update_match:
  assumes "mem_stored w (ID (heap w data)) = Some stored" "Version stored = Version (heap w data)"
  shows "\<exists>w'. inMemoryStore_Update now ctx data w = (None, w')
           \<and> inMemoryStore_Get ctx' (ID (heap w data)) w' = (Some data, None)
           \<and> heap w' data = (heap w data)\<lparr>Version := Version stored + 1, UpdatedAt := now\<rparr>
           \<and> mem_stored w' (ID (heap w data))
               = Some ((heap w data)\<lparr>Version := Version stored + 1, UpdatedAt := now\<rparr>)"
  using assms
  by (auto simp: mem_stored_Some mem_stored_def inMemoryStore_Update_def inMemoryStore_Get_def Let_def
           split: option.splits)

lemma inMemoryStore_Update_fail_unchanged:
  "inMemoryStore_Update now ctx data w = (Some e, w') \<Longrightarrow>
   w' = w \<and> (e = ErrNotFound \<or> e = ErrVersionConflict)"
  by (auto simp: inMemoryStore_Update_def Let_def split: option.splits if_splits)

lemma inMemoryStore_Create_open:
  assumes "sessions w = Some m"
  shows "inMemoryStore_Create now ctx data w =
           Inr (None, \<lparr>heap = (heap w)(data := (heap w data)\<lparr>CreatedAt := now, UpdatedAt := now, Version := 1\<rparr>),
                       sessions = Some (m(ID (heap w data) \<mapsto> data))\<rparr>)"
  using assms by (simp add: inMemoryStore_Create_def Let_def)

lemma mem_update_rounds_version:
  assumes "mem_stored w sid = Some d" "ID d = sid"
  shows "\<exists>w' d'. mem_update_rounds nows ctx sid w = Some w' \<and> mem_stored w' sid = Some d'
            \<and> ID d' = sid \<and> Version d' = Version d + of_nat (length nows)"
  using assms
proof (induction nows arbitrary: w d)
  case Nil
  then show ?case by simp
next
  case (Cons now later)
  from Cons.prems obtain m p where mp: "sessions w = Some m" "m sid = Some p" "heap w p = d"
    by (auto simp: mem_stored_Some)
  have get: "inMemoryStore_Get ctx sid w = (Some p, None)"
    using mp by (simp add: inMemoryStore_Get_def)
  have st: "mem_stored w (ID (heap w p)) = Some d" using Cons.prems mp by simp
  from inMemoryStore_Update_match[OF st, of now ctx ctx] mp(3)
  obtain w' where upd: "inMemoryStore_Update now ctx p w = (None, w')"
    and st': "mem_stored w' (ID (heap w p)) = Some (d\<lparr>Version := Version d + 1, UpdatedAt := now\<rparr>)"
    by auto
  have st'': "mem_stored w' sid = Some (d\<lparr>Version := Version d + 1, UpdatedAt := now\<rparr>)"
    using st' mp(3) Cons.prems(2) by simp
  have id': "ID (d\<lparr>Version := Version d + 1, UpdatedAt := now\<rparr>) = sid" using Cons.prems(2) by simp
  from Cons.IH[OF st'' id'] obtain w2 d2 where
    r: "mem_update_rounds later ctx sid w' = Some w2" "mem_stored w2 sid = Some d2" "ID d2 = sid"
       "Version d2 = Version (d\<lparr>Version := Version d + 1, UpdatedAt := now\<rparr>) + of_nat (length later)"
    by blast
  have "mem_update_rounds (now # later) ctx sid w = Some w2"
    using get upd r(1) by simp
  moreover have "Version d2 = Version d + of_nat (length (now # later))"
    using r(4) by simp
  ultimately show ?case using r(2,3) by blast
qed

section \<open>Properties of the version counter\<close>

lemma version_counts_updates:
  fixes v :: "64 word"
  assumes "v = 1 + of_nat n" "n < 2 ^ 63 - 1"
  shows "sint v = 1 + int n"
proof -
  have v: "v = word_of_int (1 + int n)" using assms(1) by simp
  have lo: "- (2 ^ (LENGTH(64) - 1)) \<le> 1 + int n" by simp
  have hi: "1 + int n < 2 ^ (LENGTH(64) - 1)" using assms(2) by simp
  have "sint v = signed_take_bit (LENGTH(64) - 1) (1 + int n)"
    unfolding v by (rule sint_sbintrunc')
  also have "\<dots> = 1 + int n" using lo hi by (rule signed_take_bit_int_eq_self)
  finally show ?thesis .
qed

lemma word_succ_neq: "(v :: 64 word) + 1 \<noteq> v"
  by simp

lemma tally_codec_keeps: "codec_keeps_id_version tally_codec"
  unfolding codec_keeps_id_version_def tally_codec_def
  by (auto simp: takeWhile_append dropWhile_append)

section \<open>Properties of the Redis store\<close>

lemma redis_stored_Some:
  "(redis_stored json db sid = Some d) =
     (\<exists>val t. db (key sid) = Some (val, t) \<and> unmarshalJSON json val = Inr d)"
  by (auto simp: redis_stored_def split: option.splits sum.splits)

lemma redisStore_Update_NotFound:
  assumes "client s ctx WATCH = None" "client s ctx GET = None" "db (key (ID data)) = None"
  shows "redisStore_Update json s rival now ctx data db = (Some ErrNotFound, data, db)"
  using assms by (simp add: redisStore_Update_def)

lemma redisStore_Update_Conflict:
  assumes "client s ctx WATCH = None" "client s ctx GET = None"
    "redis_stored json db (ID data) = Some stored" "Version stored \<noteq> Version data"
  shows "redisStore_Update json s rival now ctx data db = (Some ErrVersionConflict, data, db)"
  using assms by (auto simp: redisStore_Update_def redis_stored_Some)

lemma redisStore_Update_match:
  assumes "client s ctx WATCH = None" "client s ctx GET = None" "client s ctx EXEC = None"
    "redis_stored json db (ID data) = Some stored" "Version stored = Version data"
    "marshalJSON json (data\<lparr>Version := Version data + 1, UpdatedAt := now\<rparr>) = Inr newVal"
  shows "redisStore_Update json s None now ctx data db =
           (None, data\<lparr>Version := Version data + 1, UpdatedAt := now\<rparr>,
            db(key (ID data) \<mapsto> (newVal, ttl s)))"
  using assms by (auto simp: redisStore_Update_def redis_stored_Some Let_def)

lemma redisStore_Update_fail_unchanged:
  assumes "redisStore_Update json s rival now ctx data db = (Some e, data', db')"
    "e = ErrNotFound \<or> e = ErrVersionConflict"
  shows "data' = data \<and> db' = db"
  using assms
  by (auto simp: redisStore_Update_def Let_def split: option.splits sum.splits if_splits)


lemma redisStore_Create_result:
  "redisStore_Create json s now ctx data db =
     (case marshalJSON json (data\<lparr>CreatedAt := now, UpdatedAt := now, Version := 1\<rparr>) of
        Inl e \<Rightarrow> (Some (JSONError e), data\<lparr>CreatedAt := now, UpdatedAt := now, Version := 1\<rparr>, db)
      | Inr val \<Rightarrow>
          (case client s ctx SET of
             Some e \<Rightarrow> (Some (ClientError e), data\<lparr>CreatedAt := now, UpdatedAt := now, Version := 1\<rparr>, db)
           | None \<Rightarrow> (None, data\<lparr>CreatedAt := now, UpdatedAt := now, Version := 1\<rparr>,
                       db(key (ID data) \<mapsto> (val, ttl s)))))"
  by (simp add: redisStore_Create_def Let_def)

lemma redisStore_Create_never_sentinel:
  "fst (redisStore_Create json s now ctx data db) \<noteq> Some ErrNotFound \<and>
   fst (redisStore_Create json s now ctx data db) \<noteq> Some ErrVersionConflict"
  by (simp add: redisStore_Create_result split: sum.splits option.splits)

lemma redisStore_Get_present:
  assumes "client s ctx GET = None" "db (key sid) = Some (val, t)" "unmarshalJSON json val = Inr d"
  shows "fst (redisStore_Get json s ctx sid db) = (Some d, None)"
    and "redis_stored json (snd (redisStore_Get json s ctx sid db)) sid = Some d"
  using assms by (auto simp: redisStore_Get_def redis_stored_def Let_def split: option.splits)

lemma redis_update_rounds_version:
  assumes ok: "\<forall>c. client s ctx c = None" and codec: "codec_keeps_id_version json"
    and "redis_stored json db sid = Some d" "ID d = sid"
  shows "\<exists>db' d'. redis_update_rounds json s nows ctx sid db = Some db'
            \<and> redis_stored json db' sid = Some d'
            \<and> ID d' = sid \<and> Version d' = Version d + of_nat (length nows)"
  using assms(3,4)
proof (induction nows arbitrary: db d)
  case Nil
  then show ?case by simp
next
  case (Cons now later)
  from Cons.prems(1) obtain val t where vt: "db (key sid) = Some (val, t)" "unmarshalJSON json val = Inr d"
    by (auto simp: redis_stored_Some)
  have okW: "client s ctx WATCH = None" and okG: "client s ctx GET = None"
    and okE: "client s ctx EXEC = None"
    using ok by simp_all
  define db1 where "db1 = snd (redisStore_Get json s ctx sid db)"
  have g1: "fst (redisStore_Get json s ctx sid db) = (Some d, None)"
    and g2: "redis_stored json db1 sid = Some d"
    using okG vt redisStore_Get_present[where s=s and ctx=ctx and db=db and sid=sid
        and val=val and t=t and json=json and d=d]
    by (simp_all add: db1_def)
  have get: "redisStore_Get json s ctx sid db = ((Some d, None), db1)"
    using g1 by (simp add: db1_def prod_eq_iff)
  define d1 where "d1 = d\<lparr>Version := Version d + 1, UpdatedAt := now\<rparr>"
  from codec obtain v d2 where c: "marshalJSON json d1 = Inr v" "unmarshalJSON json v = Inr d2"
    "ID d2 = ID d1" "Version d2 = Version d1"
    unfolding codec_keeps_id_version_def by blast
  have g2': "redis_stored json db1 (ID d) = Some d" using g2 Cons.prems(2) by simp
  have upd: "redisStore_Update json s None now ctx d db1 = (None, d1, db1(key (ID d) \<mapsto> (v, ttl s)))"
    using okW okG okE g2' c(1)
      redisStore_Update_match[where s=s and ctx=ctx and db=db1 and data=d and stored=d
        and json=json and now=now and newVal=v]
    by (simp add: d1_def)
  define db2 where "db2 = db1(key (ID d) \<mapsto> (v, ttl s))"
  have st2: "redis_stored json db2 sid = Some d2"
    using c(2) Cons.prems(2) by (simp add: db2_def redis_stored_def)
  have id2: "ID d2 = sid" using c(3) Cons.prems(2) by (simp add: d1_def)
  from Cons.IH[OF st2 id2] obtain db' d' where
    r: "redis_update_rounds json s later ctx sid db2 = Some db'" "redis_stored json db' sid = Some d'"
       "ID d' = sid" "Version d' = Version d2 + of_nat (length later)"
    by blast
  have "redis_update_rounds json s (now # later) ctx sid db = Some db'"
    using get upd r(1) by (simp add: db2_def)
  moreover have "Version d' = Version d + of_nat (length (now # later))"
    using r(4) c(4) by (simp add: d1_def)
  ultimately show ?case using r(2,3) by blast
qed

section \<open>The optimistic lock\<close>

text \<open>
  Claim C1.  \<^verbatim>\<open>Update\<close> demands that the caller's \<^verbatim>\<open>data.Version\<close> equals the stored
  version.  On the in-memory store and, over a working connection, on the Redis store:
  with no record for the ID it returns \<^verbatim>\<open>ErrNotFound\<close>; with a stored version that
  differs it returns \<^verbatim>\<open>ErrVersionConflict\<close>; on a match it stores the caller's record
  with the version incremented by exactly 1.  After \<^verbatim>\<open>Create\<close>, \<open>N\<close> rounds of \<^verbatim>\<open>Get\<close>
  followed by \<^verbatim>\<open>Update\<close> all succeed and leave the stored version at \<open>1 + N\<close>, as a 64-bit
  word, and as a number whenever \<open>N < 2^63 - 1\<close>.  On Redis the rounds need an encoding
  that can encode every record and keeps ID and version.
\<close>

theorem Update_checks_version_and_increments:
  "(mem_stored w (ID (heap w data)) = None \<longrightarrow>
      inMemoryStore_Update now ctx data w = (Some ErrNotFound, w))
   \<and> (\<forall>stored. mem_stored w (ID (heap w data)) = Some stored
                 \<and> Version stored \<noteq> Version (heap w data) \<longrightarrow>
        inMemoryStore_Update now ctx data w = (Some ErrVersionConflict, w))
   \<and> (\<forall>stored. mem_stored w (ID (heap w data)) = Some stored
                 \<and> Version stored = Version (heap w data) \<longrightarrow>
        (\<exists>w'. inMemoryStore_Update now ctx data w = (None, w')
           \<and> mem_stored w' (ID (heap w data))
               = Some ((heap w data)\<lparr>Version := Version stored + 1, UpdatedAt := now\<rparr>)))
   \<and> (sessions w \<noteq> None \<longrightarrow>
        (\<exists>w1 w2 d. inMemoryStore_Create now ctx data w = Inr (None, w1)
           \<and> mem_update_rounds nows ctx (ID (heap w data)) w1 = Some w2
           \<and> mem_stored w2 (ID (heap w data)) = Some d
           \<and> Version d = 1 + of_nat (length nows)
           \<and> (length nows < 2 ^ 63 - 1 \<longrightarrow> sint (Version d) = 1 + int (length nows))))
   \<and> (client s ctx WATCH = None \<and> client s ctx GET = None \<and> db (key (ID rdata)) = None \<longrightarrow>
        redisStore_Update json s rival now ctx rdata db = (Some ErrNotFound, rdata, db))
   \<and> (\<forall>stored. client s ctx WATCH = None \<and> client s ctx GET = None
                 \<and> redis_stored json db (ID rdata) = Some stored
                 \<and> Version stored \<noteq> Version rdata \<longrightarrow>
        redisStore_Update json s rival now ctx rdata db = (Some ErrVersionConflict, rdata, db))
   \<and> (\<forall>stored newVal. client s ctx WATCH = None \<and> client s ctx GET = None
                 \<and> client s ctx EXEC = None
                 \<and> redis_stored json db (ID rdata) = Some stored
                 \<and> Version stored = Version rdata
                 \<and> marshalJSON json (rdata\<lparr>Version := Version rdata + 1, UpdatedAt := now\<rparr>)
                     = Inr newVal \<longrightarrow>
        redisStore_Update json s None now ctx rdata db =
          (None, rdata\<lparr>Version := Version stored + 1, UpdatedAt := now\<rparr>,
           db(key (ID rdata) \<mapsto> (newVal, ttl s))))
   \<and> ((\<forall>c. client s ctx c = None) \<and> codec_keeps_id_version json \<longrightarrow>
        (\<exists>r1 db1 db2 d. redisStore_Create json s now ctx rdata db = (None, r1, db1)
           \<and> redis_update_rounds json s nows ctx (ID rdata) db1 = Some db2
           \<and> redis_stored json db2 (ID rdata) = Some d
           \<and> Version d = 1 + of_nat (length nows)
           \<and> (length nows < 2 ^ 63 - 1 \<longrightarrow> sint (Version d) = 1 + int (length nows))))"
proof (intro conjI impI allI)
  assume "mem_stored w (ID (heap w data)) = None"
  then show "inMemoryStore_Update now ctx data w = (Some ErrNotFound, w)"
    by (rule inMemoryStore_Update_NotFound)
next
  fix stored
  assume "mem_stored w (ID (heap w data)) = Some stored \<and> Version stored \<noteq> Version (heap w data)"
  then show "inMemoryStore_Update now ctx data w = (Some ErrVersionConflict, w)"
    using inMemoryStore_Update_Conflict by blast
next
  fix stored
  assume a: "mem_stored w (ID (heap w data)) = Some stored \<and> Version stored = Version (heap w data)"
  then show "\<exists>w'. inMemoryStore_Update now ctx data w = (None, w')
           \<and> mem_stored w' (ID (heap w data))
               = Some ((heap w data)\<lparr>Version := Version stored + 1, UpdatedAt := now\<rparr>)"
    using inMemoryStore_Update_match[of w data stored now ctx ctx] by blast
next
  assume "sessions w \<noteq> None"
  then obtain m where m: "sessions w = Some m" by blast
  define d1 where "d1 = (heap w data)\<lparr>CreatedAt := now, UpdatedAt := now, Version := 1\<rparr>"
  define w1 where "w1 = \<lparr>heap = (heap w)(data := d1), sessions = Some (m(ID (heap w data) \<mapsto> data))\<rparr>"
  have c: "inMemoryStore_Create now ctx data w = Inr (None, w1)"
    using inMemoryStore_Create_open[OF m] by (simp add: w1_def d1_def)
  have st: "mem_stored w1 (ID (heap w data)) = Some d1"
    by (simp add: mem_stored_Some w1_def)
  have idd: "ID d1 = ID (heap w data)" by (simp add: d1_def)
  from mem_update_rounds_version[OF st idd, of nows ctx]
  obtain w2 d where r: "mem_update_rounds nows ctx (ID (heap w data)) w1 = Some w2"
    "mem_stored w2 (ID (heap w data)) = Some d" "Version d = Version d1 + of_nat (length nows)"
    by blast
  have v: "Version d = 1 + of_nat (length nows)" using r(3) by (simp add: d1_def)
  have "length nows < 2 ^ 63 - 1 \<longrightarrow> sint (Version d) = 1 + int (length nows)"
    using version_counts_updates[OF v] by blast
  then show "\<exists>w1 w2 d. inMemoryStore_Create now ctx data w = Inr (None, w1)
           \<and> mem_update_rounds nows ctx (ID (heap w data)) w1 = Some w2
           \<and> mem_stored w2 (ID (heap w data)) = Some d
           \<and> Version d = 1 + of_nat (length nows)
           \<and> (length nows < 2 ^ 63 - 1 \<longrightarrow> sint (Version d) = 1 + int (length nows))"
    using c r(1,2) v by blast
next
  assume "client s ctx WATCH = None \<and> client s ctx GET = None \<and> db (key (ID rdata)) = None"
  then show "redisStore_Update json s rival now ctx rdata db = (Some ErrNotFound, rdata, db)"
    by (simp add: redisStore_Update_NotFound)
next
  fix stored
  assume "client s ctx WATCH = None \<and> client s ctx GET = None
                 \<and> redis_stored json db (ID rdata) = Some stored
                 \<and> Version stored \<noteq> Version rdata"
  then show "redisStore_Update json s rival now ctx rdata db = (Some ErrVersionConflict, rdata, db)"
    using redisStore_Update_Conflict by blast
next
  fix stored newVal
  assume a: "client s ctx WATCH = None \<and> client s ctx GET = None
                 \<and> client s ctx EXEC = None
                 \<and> redis_stored json db (ID rdata) = Some stored
                 \<and> Version stored = Version rdata
                 \<and> marshalJSON json (rdata\<lparr>Version := Version rdata + 1, UpdatedAt := now\<rparr>)
                     = Inr newVal"
  then have "redisStore_Update json s None now ctx rdata db =
          (None, rdata\<lparr>Version := Version rdata + 1, UpdatedAt := now\<rparr>,
           db(key (ID rdata) \<mapsto> (newVal, ttl s)))"
    using redisStore_Update_match[where s=s and ctx=ctx and db=db and data=rdata and stored=stored
        and json=json and now=now and newVal=newVal]
    by blast
  then show "redisStore_Update json s None now ctx rdata db =
          (None, rdata\<lparr>Version := Version stored + 1, UpdatedAt := now\<rparr>,
           db(key (ID rdata) \<mapsto> (newVal, ttl s)))"
    using a by simp
next
  assume a: "(\<forall>c. client s ctx c = None) \<and> codec_keeps_id_version json"
  define r1 where "r1 = rdata\<lparr>CreatedAt := now, UpdatedAt := now, Version := 1\<rparr>"
  from a obtain v d1 where c: "marshalJSON json r1 = Inr v" "unmarshalJSON json v = Inr d1"
    "ID d1 = ID r1" "Version d1 = Version r1"
    unfolding codec_keeps_id_version_def by blast
  define db1 where "db1 = db(key (ID rdata) \<mapsto> (v, ttl s))"
  have cr: "redisStore_Create json s now ctx rdata db = (None, r1, db1)"
    using a c(1) by (simp add: redisStore_Create_result r1_def db1_def)
  have st: "redis_stored json db1 (ID rdata) = Some d1"
    using c(2) by (simp add: redis_stored_def db1_def)
  have idd: "ID d1 = ID rdata" using c(3) by (simp add: r1_def)
  from a have ok: "\<forall>c. client s ctx c = None" and kc: "codec_keeps_id_version json" by simp_all
  from redis_update_rounds_version[OF ok kc st idd, of nows]
  obtain db2 d where r: "redis_update_rounds json s nows ctx (ID rdata) db1 = Some db2"
    "redis_stored json db2 (ID rdata) = Some d" "Version d = Version d1 + of_nat (length nows)"
    by blast
  have v: "Version d = 1 + of_nat (length nows)" using r(3) c(4) by (simp add: r1_def)
  have "length nows < 2 ^ 63 - 1 \<longrightarrow> sint (Version d) = 1 + int (length nows)"
    using version_counts_updates[OF v] by blast
  then show "\<exists>r1 db1 db2 d. redisStore_Create json s now ctx rdata db = (None, r1, db1)
           \<and> redis_update_rounds json s nows ctx (ID rdata) db1 = Some db2
           \<and> redis_stored json db2 (ID rdata) = Some d
           \<and> Version d = 1 + of_nat (length nows)
           \<and> (length nows < 2 ^ 63 - 1 \<longrightarrow> sint (Version d) = 1 + int (length nows))"
    using cr r(1,2) v by blast
qed

text \<open>
  Each case at a concrete store: an empty store, a store holding version 1 against a
  caller's stale version 7 and against the current version, and three rounds of updates
  after \<^verbatim>\<open>Create\<close>, in memory and over Redis with the tally encoding.
\<close>

theorem Update_checks_version_and_increments_witness:
  "inMemoryStore_Update 6 Live 0 (NewInMemoryStore example_heap)
     = (Some ErrNotFound, NewInMemoryStore example_heap)
   \<and> inMemoryStore_Update 6 Live 1 example_world = (Some ErrVersionConflict, example_world)
   \<and> (\<exists>w'. inMemoryStore_Update 6 Live 0 example_world = (None, w')
          \<and> mem_stored w' ''s1'' = Some ((heap example_world 0)\<lparr>Version := 2, UpdatedAt := 6\<rparr>))
   \<and> (\<exists>w1 w2 d. inMemoryStore_Create 5 Live 0 (NewInMemoryStore example_heap) = Inr (None, w1)
          \<and> mem_update_rounds [6, 7, 8] Live ''s1'' w1 = Some w2
          \<and> mem_stored w2 ''s1'' = Some d \<and> Version d = 4 \<and> sint (Version d) = 4)
   \<and> redisStore_Update tally_codec example_redis None 6 Live (example_heap 0) Map.empty
       = (Some ErrNotFound, example_heap 0, Map.empty)
   \<and> redisStore_Update tally_codec example_redis None 6 Live (example_heap 1) example_db
       = (Some ErrVersionConflict, example_heap 1, example_db)
   \<and> redisStore_Update tally_codec example_redis None 6 Live (heap example_world 0) example_db
       = (None, (heap example_world 0)\<lparr>Version := 2, UpdatedAt := 6\<rparr>,
          example_db(key ''s1'' \<mapsto> (''++:s1'', defaultTTL)))
   \<and> (\<exists>r1 db1 db2 d. redisStore_Create tally_codec example_redis 5 Live (example_heap 0) Map.empty
            = (None, r1, db1)
          \<and> redis_update_rounds tally_codec example_redis [6, 7, 8] Live ''s1'' db1 = Some db2
          \<and> redis_stored tally_codec db2 ''s1'' = Some d \<and> Version d = 4 \<and> sint (Version d) = 4)"
proof -
  note defs = example_world_def example_heap_def example_redis_def example_db_def
    NewInMemoryStore_def working_client_def mem_stored_def inMemoryStore_Get_def
    redis_stored_def tally_codec_def zero_SessionData_def key_def sessionKeyPrefix_def
  \<comment> \<open>in memory: no record\<close>
  have h1: "mem_stored (NewInMemoryStore example_heap)
              (ID (heap (NewInMemoryStore example_heap) 0)) = None"
    by (simp add: defs)
  have c1: "inMemoryStore_Update 6 Live 0 (NewInMemoryStore example_heap)
              = (Some ErrNotFound, NewInMemoryStore example_heap)"
    using h1 Update_checks_version_and_increments
      [where w="NewInMemoryStore example_heap" and data=0 and now=6 and ctx=Live]
    by blast
  \<comment> \<open>in memory: a stale version\<close>
  have h2: "mem_stored example_world (ID (heap example_world 1)) = Some (heap example_world 0)
            \<and> Version (heap example_world 0) \<noteq> Version (heap example_world 1)"
    by (simp add: defs)
  have c2: "inMemoryStore_Update 6 Live 1 example_world = (Some ErrVersionConflict, example_world)"
    using h2 Update_checks_version_and_increments
      [where w=example_world and data=1 and now=6 and ctx=Live]
    by blast
  \<comment> \<open>in memory: the current version\<close>
  have h3: "mem_stored example_world (ID (heap example_world 0)) = Some (heap example_world 0)
            \<and> Version (heap example_world 0) = Version (heap example_world 0)"
    by (simp add: defs)
  have "\<exists>w'. inMemoryStore_Update 6 Live 0 example_world = (None, w')
          \<and> mem_stored w' (ID (heap example_world 0))
              = Some ((heap example_world 0)\<lparr>Version := Version (heap example_world 0) + 1,
                                             UpdatedAt := 6\<rparr>)"
    using h3 Update_checks_version_and_increments
      [where w=example_world and data=0 and now=6 and ctx=Live]
    by blast
  moreover have "ID (heap example_world 0) = ''s1''" "Version (heap example_world 0) + 1 = 2"
    by (simp_all add: defs)
  ultimately have c3: "\<exists>w'. inMemoryStore_Update 6 Live 0 example_world = (None, w')
          \<and> mem_stored w' ''s1'' = Some ((heap example_world 0)\<lparr>Version := 2, UpdatedAt := 6\<rparr>)"
    by simp
  \<comment> \<open>in memory: three rounds after Create\<close>
  have h4: "sessions (NewInMemoryStore example_heap) \<noteq> None" by (simp add: defs)
  have "\<exists>w1 w2 d. inMemoryStore_Create 5 Live 0 (NewInMemoryStore example_heap) = Inr (None, w1)
           \<and> mem_update_rounds [6, 7, 8] Live (ID (heap (NewInMemoryStore example_heap) 0)) w1 = Some w2
           \<and> mem_stored w2 (ID (heap (NewInMemoryStore example_heap) 0)) = Some d
           \<and> Version d = 1 + of_nat (length [6, 7, 8 :: int])
           \<and> (length [6, 7, 8 :: int] < 2 ^ 63 - 1 \<longrightarrow>
                 sint (Version d) = 1 + int (length [6, 7, 8 :: int]))"
    using h4 Update_checks_version_and_increments
      [where w="NewInMemoryStore example_heap" and data=0 and now=5 and ctx=Live
         and nows="[6, 7, 8]"]
    by blast
  moreover have "ID (heap (NewInMemoryStore example_heap) 0) = ''s1''" by (simp add: defs)
  ultimately have c4: "\<exists>w1 w2 d. inMemoryStore_Create 5 Live 0 (NewInMemoryStore example_heap) = Inr (None, w1)
          \<and> mem_update_rounds [6, 7, 8] Live ''s1'' w1 = Some w2
          \<and> mem_stored w2 ''s1'' = Some d \<and> Version d = 4 \<and> sint (Version d) = 4"
    by simp
  \<comment> \<open>Redis: no key\<close>
  have h5: "client example_redis Live WATCH = None \<and> client example_redis Live GET = None
            \<and> Map.empty (key (ID (example_heap 0))) = (None :: (string \<times> duration) option)"
    by (simp add: defs)
  have c5: "redisStore_Update tally_codec example_redis None 6 Live (example_heap 0) Map.empty
       = (Some ErrNotFound, example_heap 0, Map.empty)"
    using h5 Update_checks_version_and_increments
      [where s=example_redis and ctx=Live and db=Map.empty and rdata="example_heap 0"
         and json=tally_codec and rival=None and now=6]
    by blast
  \<comment> \<open>Redis: a stale version\<close>
  have h6: "client example_redis Live WATCH = None \<and> client example_redis Live GET = None
            \<and> redis_stored tally_codec example_db (ID (example_heap 1))
                = Some (zero_SessionData\<lparr>ID := ''s1'', Version := 1\<rparr>)
            \<and> Version (zero_SessionData\<lparr>ID := ''s1'', Version := 1\<rparr>) \<noteq> Version (example_heap 1)"
    by (simp add: defs)
  have c6: "redisStore_Update tally_codec example_redis None 6 Live (example_heap 1) example_db
       = (Some ErrVersionConflict, example_heap 1, example_db)"
    using h6 Update_checks_version_and_increments
      [where s=example_redis and ctx=Live and db=example_db and rdata="example_heap 1"
         and json=tally_codec and rival=None and now=6]
    by blast
  \<comment> \<open>Redis: the current version\<close>
  have u2: "replicate 2 (CHR ''+'') = ''++''"
    by (simp add: numeral_2_eq_2)
  have h7: "client example_redis Live WATCH = None \<and> client example_redis Live GET = None
            \<and> client example_redis Live EXEC = None
            \<and> redis_stored tally_codec example_db (ID (heap example_world 0))
                = Some (zero_SessionData\<lparr>ID := ''s1'', Version := 1\<rparr>)
            \<and> Version (zero_SessionData\<lparr>ID := ''s1'', Version := 1\<rparr>) = Version (heap example_world 0)
            \<and> marshalJSON tally_codec
                 ((heap example_world 0)\<lparr>Version := Version (heap example_world 0) + 1, UpdatedAt := 6\<rparr>)
                = Inr ''++:s1''"
    by (simp add: defs u2)
  have "redisStore_Update tally_codec example_redis None 6 Live (heap example_world 0) example_db
       = (None, (heap example_world 0)\<lparr>Version := Version (zero_SessionData\<lparr>ID := ''s1'', Version := 1\<rparr>) + 1,
                                        UpdatedAt := 6\<rparr>,
          example_db(key (ID (heap example_world 0)) \<mapsto> (''++:s1'', ttl example_redis)))"
    using h7 Update_checks_version_and_increments
      [where s=example_redis and ctx=Live and db=example_db and rdata="heap example_world 0"
         and json=tally_codec and now=6]
    by blast
  moreover have "ID (heap example_world 0) = ''s1''" "ttl example_redis = defaultTTL"
    "Version (zero_SessionData\<lparr>ID := ''s1'', Version := 1\<rparr>) + 1 = 2"
    by (simp_all add: defs)
  ultimately have c7: "redisStore_Update tally_codec example_redis None 6 Live (heap example_world 0) example_db
       = (None, (heap example_world 0)\<lparr>Version := 2, UpdatedAt := 6\<rparr>,
          example_db(key ''s1'' \<mapsto> (''++:s1'', defaultTTL)))"
    by simp
  \<comment> \<open>Redis: three rounds after Create\<close>
  have kc: "codec_keeps_id_version tally_codec"
    unfolding codec_keeps_id_version_def tally_codec_def
    by (auto simp: takeWhile_append dropWhile_append)
  have h8: "(\<forall>c. client example_redis Live c = None) \<and> codec_keeps_id_version tally_codec"
    using kc by (simp add: defs)
  have "\<exists>r1 db1 db2 d. redisStore_Create tally_codec example_redis 5 Live (example_heap 0) Map.empty
            = (None, r1, db1)
          \<and> redis_update_rounds tally_codec example_redis [6, 7, 8] Live (ID (example_heap 0)) db1 = Some db2
          \<and> redis_stored tally_codec db2 (ID (example_heap 0)) = Some d
          \<and> Version d = 1 + of_nat (length [6, 7, 8 :: int])
          \<and> (length [6, 7, 8 :: int] < 2 ^ 63 - 1 \<longrightarrow>
                 sint (Version d) = 1 + int (length [6, 7, 8 :: int]))"
    using h8 Update_checks_version_and_increments
      [where s=example_redis and ctx=Live and db=Map.empty and rdata="example_heap 0"
         and json=tally_codec and now=5 and nows="[6, 7, 8]"]
    by blast
  moreover have "ID (example_heap 0) = ''s1''" by (simp add: defs)
  ultimately have c8: "\<exists>r1 db1 db2 d. redisStore_Create tally_codec example_redis 5 Live (example_heap 0) Map.empty
            = (None, r1, db1)
          \<and> redis_update_rounds tally_codec example_redis [6, 7, 8] Live ''s1'' db1 = Some db2
          \<and> redis_stored tally_codec db2 ''s1'' = Some d \<and> Version d = 4 \<and> sint (Version d) = 4"
    by simp
  show ?thesis
    using c1 c2 c3 c4 c5 c6 c7 c8 by (intro conjI)
qed

text \<open>
  Claim C3.  An \<^verbatim>\<open>Update\<close> that fails with \<^verbatim>\<open>ErrNotFound\<close> or \<^verbatim>\<open>ErrVersionConflict\<close> changes
  nothing.  In memory these are the only errors, and the whole state comes back as it
  was: the map, and every struct on the heap, the caller's own with its \<^verbatim>\<open>Version\<close> and
  \<^verbatim>\<open>UpdatedAt\<close> included.  Over Redis the caller's struct and the database come back as
  they were.
\<close>

theorem Update_failure_leaves_state:
  "(\<forall>e w'. inMemoryStore_Update now ctx data w = (Some e, w') \<longrightarrow>
        (e = ErrNotFound \<or> e = ErrVersionConflict) \<and> w' = w
        \<and> heap w' data = heap w data \<and> sessions w' = sessions w)
   \<and> (\<forall>e data' db'. redisStore_Update json s rival now ctx rdata db = (Some e, data', db')
          \<and> (e = ErrNotFound \<or> e = ErrVersionConflict) \<longrightarrow>
        data' = rdata \<and> db' = db)"
proof (rule conjI)
  show "\<forall>e w'. inMemoryStore_Update now ctx data w = (Some e, w') \<longrightarrow>
        (e = ErrNotFound \<or> e = ErrVersionConflict) \<and> w' = w
        \<and> heap w' data = heap w data \<and> sessions w' = sessions w"
  proof (intro allI impI)
    fix e w'
    assume a: "inMemoryStore_Update now ctx data w = (Some e, w')"
    from inMemoryStore_Update_fail_unchanged[OF a]
    show "(e = ErrNotFound \<or> e = ErrVersionConflict) \<and> w' = w
          \<and> heap w' data = heap w data \<and> sessions w' = sessions w"
      by simp
  qed
next
  show "\<forall>e data' db'. redisStore_Update json s rival now ctx rdata db = (Some e, data', db')
          \<and> (e = ErrNotFound \<or> e = ErrVersionConflict) \<longrightarrow>
        data' = rdata \<and> db' = db"
    using redisStore_Update_fail_unchanged by blast
qed

text \<open>
  A stale version in memory and over Redis, and an absent key over Redis: the error is
  returned and the state after the call is the state before it.
\<close>

theorem Update_failure_leaves_state_witness:
  "fst (inMemoryStore_Update 6 Live 1 example_world) = Some ErrVersionConflict
   \<and> snd (inMemoryStore_Update 6 Live 1 example_world) = example_world
   \<and> fst (redisStore_Update tally_codec example_redis None 6 Live (example_heap 1) example_db)
       = Some ErrVersionConflict
   \<and> snd (redisStore_Update tally_codec example_redis None 6 Live (example_heap 1) example_db)
       = (example_heap 1, example_db)
   \<and> fst (redisStore_Update tally_codec example_redis None 6 Live (example_heap 0) Map.empty)
       = Some ErrNotFound
   \<and> snd (redisStore_Update tally_codec example_redis None 6 Live (example_heap 0) Map.empty)
       = (example_heap 0, Map.empty)"
proof -
  note defs = example_world_def example_heap_def example_redis_def example_db_def
    working_client_def tally_codec_def zero_SessionData_def key_def sessionKeyPrefix_def
  have m1: "fst (inMemoryStore_Update 6 Live 1 example_world) = Some ErrVersionConflict"
    by (simp add: inMemoryStore_Update_def defs)
  then have "inMemoryStore_Update 6 Live 1 example_world
               = (Some ErrVersionConflict, snd (inMemoryStore_Update 6 Live 1 example_world))"
    by (simp add: prod_eq_iff)
  then have m2: "snd (inMemoryStore_Update 6 Live 1 example_world) = example_world"
    using Update_failure_leaves_state[where now=6 and ctx=Live and data=1 and w=example_world]
    by blast
  have r1: "fst (redisStore_Update tally_codec example_redis None 6 Live (example_heap 1) example_db)
              = Some ErrVersionConflict"
    by (simp add: redisStore_Update_def defs)
  then have "redisStore_Update tally_codec example_redis None 6 Live (example_heap 1) example_db
               = (Some ErrVersionConflict,
                  fst (snd (redisStore_Update tally_codec example_redis None 6 Live (example_heap 1) example_db)),
                  snd (snd (redisStore_Update tally_codec example_redis None 6 Live (example_heap 1) example_db)))"
    by (simp add: prod_eq_iff)
  then have r2: "snd (redisStore_Update tally_codec example_redis None 6 Live (example_heap 1) example_db)
              = (example_heap 1, example_db)"
    using Update_failure_leaves_state[where json=tally_codec and s=example_redis and rival=None
        and now=6 and ctx=Live and rdata="example_heap 1" and db=example_db]
    by (simp add: prod_eq_iff)
  have r3: "fst (redisStore_Update tally_codec example_redis None 6 Live (example_heap 0) Map.empty)
              = Some ErrNotFound"
    by (simp add: redisStore_Update_def defs)
  then have "redisStore_Update tally_codec example_redis None 6 Live (example_heap 0) Map.empty
               = (Some ErrNotFound,
                  fst (snd (redisStore_Update tally_codec example_redis None 6 Live (example_heap 0) Map.empty)),
                  snd (snd (redisStore_Update tally_codec example_redis None 6 Live (example_heap 0) Map.empty)))"
    by (simp add: prod_eq_iff)
  then have r4: "snd (redisStore_Update tally_codec example_redis None 6 Live (example_heap 0) Map.empty)
              = (example_heap 0, Map.empty)"
    using Update_failure_leaves_state[where json=tally_codec and s=example_redis and rival=None
        and now=6 and ctx=Live and rdata="example_heap 0" and db=Map.empty]
    by (simp add: prod_eq_iff)
  show ?thesis using m1 m2 r1 r2 r3 r4 by (intro conjI)
qed

text \<open>
  Claim C4.  \<^verbatim>\<open>Create\<close> does not look for an earlier record: on an open in-memory store
  it always succeeds, whatever the map holds and whatever version and timestamps the
  caller's struct carries, forces \<^verbatim>\<open>Version = 1\<close> and both timestamps to the clock reading,
  and stores the struct, so that \<^verbatim>\<open>Get\<close> hands back a record with version 1 and equal
  timestamps.  Over Redis it never returns \<^verbatim>\<open>ErrNotFound\<close> or \<^verbatim>\<open>ErrVersionConflict\<close>; once the
  encoding and the \<^verbatim>\<open>SET\<close> command succeed it has written the forced record over whatever
  the key held, and a \<^verbatim>\<open>Get\<close> that decodes what was written returns that record.
\<close>

theorem Create_overwrites_with_version_1:
  "(sessions w \<noteq> None \<longrightarrow>
      (\<exists>w'. inMemoryStore_Create now ctx data w = Inr (None, w')
         \<and> inMemoryStore_Get ctx' (ID (heap w data)) w' = (Some data, None)
         \<and> heap w' data = (heap w data)\<lparr>CreatedAt := now, UpdatedAt := now, Version := 1\<rparr>
         \<and> Version (heap w' data) = 1
         \<and> CreatedAt (heap w' data) = now \<and> UpdatedAt (heap w' data) = now))
   \<and> fst (redisStore_Create json s now ctx rdata db) \<noteq> Some ErrNotFound
   \<and> fst (redisStore_Create json s now ctx rdata db) \<noteq> Some ErrVersionConflict
   \<and> (\<forall>val. marshalJSON json (rdata\<lparr>CreatedAt := now, UpdatedAt := now, Version := 1\<rparr>) = Inr val
          \<and> client s ctx SET = None \<longrightarrow>
        redisStore_Create json s now ctx rdata db
          = (None, rdata\<lparr>CreatedAt := now, UpdatedAt := now, Version := 1\<rparr>,
             db(key (ID rdata) \<mapsto> (val, ttl s)))
        \<and> (client s ctx' GET = None
             \<and> unmarshalJSON json val
                 = Inr (rdata\<lparr>CreatedAt := now, UpdatedAt := now, Version := 1\<rparr>) \<longrightarrow>
            fst (redisStore_Get json s ctx' (ID rdata) (db(key (ID rdata) \<mapsto> (val, ttl s))))
              = (Some (rdata\<lparr>CreatedAt := now, UpdatedAt := now, Version := 1\<rparr>), None)))"
proof (intro conjI)
  show "sessions w \<noteq> None \<longrightarrow>
      (\<exists>w'. inMemoryStore_Create now ctx data w = Inr (None, w')
         \<and> inMemoryStore_Get ctx' (ID (heap w data)) w' = (Some data, None)
         \<and> heap w' data = (heap w data)\<lparr>CreatedAt := now, UpdatedAt := now, Version := 1\<rparr>
         \<and> Version (heap w' data) = 1
         \<and> CreatedAt (heap w' data) = now \<and> UpdatedAt (heap w' data) = now)"
  proof
    assume "sessions w \<noteq> None"
    then obtain m where m: "sessions w = Some m" by blast
    show "\<exists>w'. inMemoryStore_Create now ctx data w = Inr (None, w')
         \<and> inMemoryStore_Get ctx' (ID (heap w data)) w' = (Some data, None)
         \<and> heap w' data = (heap w data)\<lparr>CreatedAt := now, UpdatedAt := now, Version := 1\<rparr>
         \<and> Version (heap w' data) = 1
         \<and> CreatedAt (heap w' data) = now \<and> UpdatedAt (heap w' data) = now"
      using inMemoryStore_Create_open[OF m, of now ctx data]
      by (simp add: inMemoryStore_Get_def)
  qed
next
  show "fst (redisStore_Create json s now ctx rdata db) \<noteq> Some ErrNotFound"
    using redisStore_Create_never_sentinel by blast
next
  show "fst (redisStore_Create json s now ctx rdata db) \<noteq> Some ErrVersionConflict"
    using redisStore_Create_never_sentinel by blast
next
  show "\<forall>val. marshalJSON json (rdata\<lparr>CreatedAt := now, UpdatedAt := now, Version := 1\<rparr>) = Inr val
          \<and> client s ctx SET = None \<longrightarrow>
        redisStore_Create json s now ctx rdata db
          = (None, rdata\<lparr>CreatedAt := now, UpdatedAt := now, Version := 1\<rparr>,
             db(key (ID rdata) \<mapsto> (val, ttl s)))
        \<and> (client s ctx' GET = None
             \<and> unmarshalJSON json val
                 = Inr (rdata\<lparr>CreatedAt := now, UpdatedAt := now, Version := 1\<rparr>) \<longrightarrow>
            fst (redisStore_Get json s ctx' (ID rdata) (db(key (ID rdata) \<mapsto> (val, ttl s))))
              = (Some (rdata\<lparr>CreatedAt := now, UpdatedAt := now, Version := 1\<rparr>), None))"
    by (auto simp: redisStore_Create_result redisStore_Get_def Let_def)
qed

text \<open>
  A store that already holds a record for \<^verbatim>\<open>"s1"\<close>, and a second struct with the same ID,
  version 7 and timestamps 3 and 4: \<^verbatim>\<open>Create\<close> at time 9 replaces the record, in memory
  and over Redis.
\<close>

theorem Create_overwrites_with_version_1_witness:
  "mem_stored example_world ''s1'' = Some (heap example_world 0)
   \<and> (\<exists>w'. inMemoryStore_Create 9 Live 1 example_world = Inr (None, w')
         \<and> inMemoryStore_Get Live ''s1'' w' = (Some 1, None)
         \<and> Version (heap w' 1) = 1 \<and> CreatedAt (heap w' 1) = 9 \<and> UpdatedAt (heap w' 1) = 9)
   \<and> redisStore_Create (constant_codec (Inr ''v1'') ((example_heap 1)\<lparr>CreatedAt := 9, UpdatedAt := 9, Version := 1\<rparr>))
         example_redis 9 Live (example_heap 1) example_db
       = (None, (example_heap 1)\<lparr>CreatedAt := 9, UpdatedAt := 9, Version := 1\<rparr>,
          example_db(key ''s1'' \<mapsto> (''v1'', defaultTTL)))
   \<and> fst (redisStore_Get (constant_codec (Inr ''v1'') ((example_heap 1)\<lparr>CreatedAt := 9, UpdatedAt := 9, Version := 1\<rparr>))
         example_redis Live ''s1'' (example_db(key ''s1'' \<mapsto> (''v1'', defaultTTL))))
       = (Some ((example_heap 1)\<lparr>CreatedAt := 9, UpdatedAt := 9, Version := 1\<rparr>), None)"
proof -
  note defs = example_world_def example_heap_def example_redis_def example_db_def
    working_client_def constant_codec_def zero_SessionData_def key_def sessionKeyPrefix_def
  define json where "json = constant_codec (Inr ''v1'')
      ((example_heap 1)\<lparr>CreatedAt := 9, UpdatedAt := 9, Version := 1\<rparr>)"
  have e: "mem_stored example_world ''s1'' = Some (heap example_world 0)"
    by (simp add: mem_stored_def inMemoryStore_Get_def defs)
  have h1: "sessions example_world \<noteq> None" by (simp add: defs)
  have "\<exists>w'. inMemoryStore_Create 9 Live 1 example_world = Inr (None, w')
         \<and> inMemoryStore_Get Live (ID (heap example_world 1)) w' = (Some 1, None)
         \<and> heap w' 1 = (heap example_world 1)\<lparr>CreatedAt := 9, UpdatedAt := 9, Version := 1\<rparr>
         \<and> Version (heap w' 1) = 1
         \<and> CreatedAt (heap w' 1) = 9 \<and> UpdatedAt (heap w' 1) = 9"
    using h1 Create_overwrites_with_version_1[where w=example_world and now=9 and ctx=Live
        and ctx'=Live and data=1]
    by blast
  moreover have "ID (heap example_world 1) = ''s1''" by (simp add: defs)
  ultimately have m: "\<exists>w'. inMemoryStore_Create 9 Live 1 example_world = Inr (None, w')
         \<and> inMemoryStore_Get Live ''s1'' w' = (Some 1, None)
         \<and> Version (heap w' 1) = 1 \<and> CreatedAt (heap w' 1) = 9 \<and> UpdatedAt (heap w' 1) = 9"
    by auto
  have h2: "marshalJSON json ((example_heap 1)\<lparr>CreatedAt := 9, UpdatedAt := 9, Version := 1\<rparr>) = Inr ''v1''
          \<and> client example_redis Live SET = None"
    by (simp add: json_def defs)
  have h3: "client example_redis Live GET = None
          \<and> unmarshalJSON json ''v1'' = Inr ((example_heap 1)\<lparr>CreatedAt := 9, UpdatedAt := 9, Version := 1\<rparr>)"
    by (simp add: json_def defs)
  have idk: "ID (example_heap 1) = ''s1''" "ttl example_redis = defaultTTL" by (simp_all add: defs)
  have r: "redisStore_Create json example_redis 9 Live (example_heap 1) example_db
       = (None, (example_heap 1)\<lparr>CreatedAt := 9, UpdatedAt := 9, Version := 1\<rparr>,
          example_db(key (ID (example_heap 1)) \<mapsto> (''v1'', ttl example_redis)))
     \<and> fst (redisStore_Get json example_redis Live (ID (example_heap 1))
              (example_db(key (ID (example_heap 1)) \<mapsto> (''v1'', ttl example_redis))))
       = (Some ((example_heap 1)\<lparr>CreatedAt := 9, UpdatedAt := 9, Version := 1\<rparr>), None)"
    using h2 h3 Create_overwrites_with_version_1[where json=json and s=example_redis and now=9
        and ctx=Live and ctx'=Live and rdata="example_heap 1" and db=example_db]
    by blast
  show ?thesis using e m r unfolding idk json_def by (intro conjI) simp_all
qed



text \<open>
  Claim C5, as the code has it.  The in-memory store never looks at its context: every
  operation does, under a cancelled or expired context, exactly what it does under a
  live one, effect and result.  The Redis store hands the context to each client command
  and returns the command's error: with a client that fails every command issued under a
  finished context with \<^verbatim>\<open>ctx.Err()\<close>, \<^verbatim>\<open>Get\<close>, \<^verbatim>\<open>Update\<close> and \<^verbatim>\<open>Delete\<close> return that error,
  \<^verbatim>\<open>Create\<close> returns it or, if the encoding fails first, the encoding's error, and none of
  them writes to the database.
\<close>

theorem Context_ignored_in_memory_relayed_to_client:
  "inMemoryStore_Create now ctx data w = inMemoryStore_Create now Live data w
   \<and> inMemoryStore_Get ctx sid w = inMemoryStore_Get Live sid w
   \<and> inMemoryStore_Update now ctx data w = inMemoryStore_Update now Live data w
   \<and> inMemoryStore_Delete ctx sid w = inMemoryStore_Delete Live sid w
   \<and> (\<forall>e. ctx_Err ctx = Some e \<and> (\<forall>c. client s ctx c = Some e) \<longrightarrow>
        (\<exists>err d. redisStore_Create json s now ctx rdata db = (Some err, d, db)
            \<and> (err = ClientError e \<or> (\<exists>m. err = JSONError m)))
        \<and> redisStore_Get json s ctx sid db = ((None, Some (ClientError e)), db)
        \<and> redisStore_Update json s rival now ctx rdata db = (Some (ClientError e), rdata, db)
        \<and> redisStore_Delete s ctx sid db = (Some (ClientError e), db))"
proof (intro conjI allI impI)
  show "inMemoryStore_Create now ctx data w = inMemoryStore_Create now Live data w"
    by (simp add: inMemoryStore_Create_def)
  show "inMemoryStore_Get ctx sid w = inMemoryStore_Get Live sid w"
    by (simp add: inMemoryStore_Get_def)
  show "inMemoryStore_Update now ctx data w = inMemoryStore_Update now Live data w"
    by (simp add: inMemoryStore_Update_def)
  show "inMemoryStore_Delete ctx sid w = inMemoryStore_Delete Live sid w"
    by (simp add: inMemoryStore_Delete_def)
next
  fix e
  assume a: "ctx_Err ctx = Some e \<and> (\<forall>c. client s ctx c = Some e)"
  show "\<exists>err d. redisStore_Create json s now ctx rdata db = (Some err, d, db)
            \<and> (err = ClientError e \<or> (\<exists>m. err = JSONError m))"
    using a by (auto simp: redisStore_Create_result split: sum.splits)
next
  fix e
  assume a: "ctx_Err ctx = Some e \<and> (\<forall>c. client s ctx c = Some e)"
  show "redisStore_Get json s ctx sid db = ((None, Some (ClientError e)), db)"
    using a by (simp add: redisStore_Get_def)
next
  fix e
  assume a: "ctx_Err ctx = Some e \<and> (\<forall>c. client s ctx c = Some e)"
  show "redisStore_Update json s rival now ctx rdata db = (Some (ClientError e), rdata, db)"
    using a by (simp add: redisStore_Update_def)
next
  fix e
  assume a: "ctx_Err ctx = Some e \<and> (\<forall>c. client s ctx c = Some e)"
  show "redisStore_Delete s ctx sid db = (Some (ClientError e), db)"
    using a by (simp add: redisStore_Delete_def)
qed

text \<open>
  A cancelled context over a client that checks it: each Redis operation returns an error
  and leaves the database as it was.
\<close>

theorem Context_ignored_in_memory_relayed_to_client_witness:
  "ctx_Err Cancelled = Some ContextCanceled
   \<and> redisStore_Get tally_codec \<lparr>client = ctx_checking_client, ttl = defaultTTL\<rparr>
        Cancelled ''s1'' example_db
      = ((None, Some (ClientError ContextCanceled)), example_db)
   \<and> redisStore_Update tally_codec \<lparr>client = ctx_checking_client, ttl = defaultTTL\<rparr>
        None 6 Cancelled (example_heap 0) example_db
      = (Some (ClientError ContextCanceled), example_heap 0, example_db)
   \<and> redisStore_Delete \<lparr>client = ctx_checking_client, ttl = defaultTTL\<rparr>
        Cancelled ''s1'' example_db
      = (Some (ClientError ContextCanceled), example_db)
   \<and> fst (redisStore_Create tally_codec \<lparr>client = ctx_checking_client, ttl = defaultTTL\<rparr>
        6 Cancelled (example_heap 0) example_db) \<noteq> None
   \<and> snd (snd (redisStore_Create tally_codec \<lparr>client = ctx_checking_client, ttl = defaultTTL\<rparr>
        6 Cancelled (example_heap 0) example_db)) = example_db"
proof -
  define s where "s = \<lparr>client = ctx_checking_client, ttl = defaultTTL\<rparr>"
  have pre: "ctx_Err Cancelled = Some ContextCanceled
             \<and> (\<forall>c. client s Cancelled c = Some ContextCanceled)"
    by (simp add: s_def ctx_checking_client_def)
  note T = Context_ignored_in_memory_relayed_to_client[where ctx=Cancelled and s=s
      and json=tally_codec and db=example_db and rdata="example_heap 0" and now=6
      and rival=None and sid="''s1''"]
  have g: "redisStore_Get tally_codec s Cancelled ''s1'' example_db
      = ((None, Some (ClientError ContextCanceled)), example_db)"
    using pre T by blast
  have u: "redisStore_Update tally_codec s None 6 Cancelled (example_heap 0) example_db
      = (Some (ClientError ContextCanceled), example_heap 0, example_db)"
    using pre T by blast
  have d: "redisStore_Delete s Cancelled ''s1'' example_db
      = (Some (ClientError ContextCanceled), example_db)"
    using pre T by blast
  have "\<exists>err d. redisStore_Create tally_codec s 6 Cancelled (example_heap 0) example_db
            = (Some err, d, example_db)"
    using pre T by blast
  then have c: "fst (redisStore_Create tally_codec s 6 Cancelled (example_heap 0) example_db) \<noteq> None
      \<and> snd (snd (redisStore_Create tally_codec s 6 Cancelled (example_heap 0) example_db)) = example_db"
    by auto
  show ?thesis using pre g u d c unfolding s_def by blast
qed

text \<open>
  Claim C5 as stated fails on the in-memory store: under a cancelled context
  \<^verbatim>\<open>Create\<close> stores the record and returns no error, \<^verbatim>\<open>Get\<close> returns the record, \<^verbatim>\<open>Update\<close>
  stores version 2 and returns no error; under an expired one \<^verbatim>\<open>Delete\<close> removes the record
  and returns no error.
\<close>

theorem inMemoryStore_ignores_cancelled_context_counterexample:
  "ctx_Err Cancelled = Some ContextCanceled
   \<and> inMemoryStore_Create 5 Cancelled 0 (NewInMemoryStore example_heap) = Inr (None, example_world)
   \<and> inMemoryStore_Get Cancelled ''s1'' example_world = (Some 0, None)
   \<and> fst (inMemoryStore_Update 6 Cancelled 0 example_world) = None
   \<and> map_option Version (mem_stored (snd (inMemoryStore_Update 6 Cancelled 0 example_world)) ''s1'')
       = Some 2
   \<and> inMemoryStore_Delete PastDeadline ''s1'' example_world
       = (None, example_world\<lparr>sessions := Some Map.empty\<rparr>)"
  by (simp add: inMemoryStore_Create_def inMemoryStore_Get_def inMemoryStore_Update_def
        inMemoryStore_Delete_def NewInMemoryStore_def example_world_def example_heap_def
        zero_SessionData_def mem_stored_def Let_def)

text \<open>
  Claim C2.  The claim is that the version stored for an ID never goes back while the
  record exists, and that no two successful updates start from the same version.  The
  interface documents \<^verbatim>\<open>Create\<close> as returning an error if the session already exists, and
  the \<^verbatim>\<open>Version\<close> field as monotonically increasing, but no \<^verbatim>\<open>Create\<close> checks for an
  existing record.  Here, in memory and over Redis: \<^verbatim>\<open>Create\<close> stores version 1, \<^verbatim>\<open>Update\<close>
  stores version 2, a second \<^verbatim>\<open>Create\<close> for the same ID stores version 1 again over the
  existing record, and (in memory) the next \<^verbatim>\<open>Update\<close> starts from version 1 as the first
  one did.
\<close>

theorem Create_resets_version_of_existing_record:
  "inMemoryStore_Create 5 Live 0 (NewInMemoryStore example_heap) = Inr (None, example_world)
   \<and> map_option Version (mem_stored example_world ''s1'') = Some 1
   \<and> (\<exists>w2 w3 w4.
         inMemoryStore_Update 6 Live 0 example_world = (None, w2)
       \<and> map_option Version (mem_stored w2 ''s1'') = Some 2
       \<and> inMemoryStore_Create 7 Live 1 w2 = Inr (None, w3)
       \<and> map_option Version (mem_stored w3 ''s1'') = Some 1
       \<and> inMemoryStore_Update 8 Live 1 w3 = (None, w4)
       \<and> map_option Version (mem_stored w4 ''s1'') = Some 2)
   \<and> redis_stored tally_codec example_db ''s1''
       = Some (zero_SessionData\<lparr>ID := ''s1'', Version := 1\<rparr>)
   \<and> (\<exists>d2 db2 d3 db3.
         redisStore_Update tally_codec example_redis None 6 Live (heap example_world 0) example_db
           = (None, d2, db2)
       \<and> map_option Version (redis_stored tally_codec db2 ''s1'') = Some 2
       \<and> redisStore_Create tally_codec example_redis 7 Live (example_heap 1) db2 = (None, d3, db3)
       \<and> map_option Version (redis_stored tally_codec db3 ''s1'') = Some 1)"
proof -
  have u2: "replicate 2 (CHR ''+'') = ''++''" by (simp add: numeral_2_eq_2)
  show ?thesis
    by (simp add: inMemoryStore_Create_def inMemoryStore_Get_def inMemoryStore_Update_def
        redisStore_Update_def redisStore_Create_def redis_stored_def
        NewInMemoryStore_def example_world_def example_heap_def example_redis_def example_db_def
        working_client_def tally_codec_def key_def sessionKeyPrefix_def
        zero_SessionData_def mem_stored_def Let_def u2)
qed

end
